theory Spec2Isabelle
  imports Complex_Main "HOL-Library.Sublist" "HOL-Library.Word"
begin

section \<open>Go strings and the library functions the parsers call\<close>

text \<open>
  A Go string is a sequence of bytes, modelled as \<^typ>\<open>string\<close> (a list of 8-bit
  characters); offsets are byte offsets, as Go's \<^verbatim>\<open>regexp\<close> reports them.
  Every pattern of the parsers is built from ASCII literals, ASCII classes and the
  negated class \<^verbatim>\<open>[^\s]\<close>, so matching byte by byte and matching rune by rune
  agree on every input.
\<close>

definition isDigit :: "char \<Rightarrow> bool" where
  \<comment> \<open>\<^verbatim>\<open>\d\<close> and \<^verbatim>\<open>[0-9]\<close>: ASCII digits only\<close>
  "isDigit c \<longleftrightarrow> c \<in> set ''0123456789''"

definition reSpace :: "char \<Rightarrow> bool" where
  \<comment> \<open>\<^verbatim>\<open>\s\<close> of Go's regexp: tab, newline, form feed, carriage return, space\<close>
  "reSpace c \<longleftrightarrow> c \<in> set [CHR 0x09, CHR 0x0A, CHR 0x0C, CHR 0x0D, CHR 0x20]"

definition isLetter :: "char \<Rightarrow> bool" where
  \<comment> \<open>\<^verbatim>\<open>[A-Za-z]\<close>\<close>
  "isLetter c \<longleftrightarrow>
     c \<in> set ''ABCDEFGHIJKLMNOPQRSTUVWXYZabcdefghijklmnopqrstuvwxyz''"

definition isAlnum :: "char \<Rightarrow> bool" where
  \<comment> \<open>\<^verbatim>\<open>[A-Za-z0-9]\<close>\<close>
  "isAlnum c \<longleftrightarrow> isLetter c \<or> isDigit c"

text \<open>
  \<^verbatim>\<open>unicode.IsSpace\<close>, which \<^verbatim>\<open>strings.Fields\<close> and \<^verbatim>\<open>strings.TrimSpace\<close>
  use: the six ASCII white space characters and U+0085, U+00A0, U+1680,
  U+2000 to U+200A, U+2028, U+2029, U+202F, U+205F, U+3000, here in UTF-8.
  A lead byte of UTF-8 is never consumed as part of another rune by Go's decoder, so
  a white space rune stands in the string exactly where its bytes do.
\<close>

definition unicodeSpaces :: "string list" where
  "unicodeSpaces =
     [[CHR 0x09], [CHR 0x0A], [CHR 0x0B], [CHR 0x0C], [CHR 0x0D], [CHR 0x20],
      [CHR 0xC2, CHR 0x85], [CHR 0xC2, CHR 0xA0],
      [CHR 0xE1, CHR 0x9A, CHR 0x80],
      [CHR 0xE2, CHR 0x80, CHR 0x80], [CHR 0xE2, CHR 0x80, CHR 0x81],
      [CHR 0xE2, CHR 0x80, CHR 0x82], [CHR 0xE2, CHR 0x80, CHR 0x83],
      [CHR 0xE2, CHR 0x80, CHR 0x84], [CHR 0xE2, CHR 0x80, CHR 0x85],
      [CHR 0xE2, CHR 0x80, CHR 0x86], [CHR 0xE2, CHR 0x80, CHR 0x87],
      [CHR 0xE2, CHR 0x80, CHR 0x88], [CHR 0xE2, CHR 0x80, CHR 0x89],
      [CHR 0xE2, CHR 0x80, CHR 0x8A],
      [CHR 0xE2, CHR 0x80, CHR 0xA8], [CHR 0xE2, CHR 0x80, CHR 0xA9],
      [CHR 0xE2, CHR 0x80, CHR 0xAF], [CHR 0xE2, CHR 0x81, CHR 0x9F],
      [CHR 0xE3, CHR 0x80, CHR 0x80]]"

definition spaceLen :: "string \<Rightarrow> nat" where
  \<comment> \<open>the number of bytes of the white space rune at the head of the string, 0 if none\<close>
  "spaceLen s = (case filter (\<lambda>w. prefix w s) unicodeSpaces of [] \<Rightarrow> 0 | w # _ \<Rightarrow> length w)"

definition spaceLenRev :: "string \<Rightarrow> nat" where
  \<comment> \<open>the same at the end of a string, given reversed\<close>
  "spaceLenRev r =
     (case filter (\<lambda>w. prefix (rev w) r) unicodeSpaces of [] \<Rightarrow> 0 | w # _ \<Rightarrow> length w)"

fun trimLeftFrom :: "nat \<Rightarrow> string \<Rightarrow> string" where
  "trimLeftFrom k [] = []"
| "trimLeftFrom k (c # cs) =
     (if 0 < k then trimLeftFrom (k - 1) cs
      else if 0 < spaceLen (c # cs) then trimLeftFrom (spaceLen (c # cs) - 1) cs
      else c # cs)"

fun trimRevFrom :: "nat \<Rightarrow> string \<Rightarrow> string" where
  "trimRevFrom k [] = []"
| "trimRevFrom k (c # cs) =
     (if 0 < k then trimRevFrom (k - 1) cs
      else if 0 < spaceLenRev (c # cs) then trimRevFrom (spaceLenRev (c # cs) - 1) cs
      else c # cs)"

definition TrimSpace :: "string \<Rightarrow> string" where
  \<comment> \<open>\<^verbatim>\<open>strings.TrimSpace\<close>: all leading and trailing white space runes removed\<close>
  "TrimSpace s = rev (trimRevFrom 0 (rev (trimLeftFrom 0 s)))"

fun fieldsFrom :: "nat \<Rightarrow> string \<Rightarrow> string \<Rightarrow> string list" where
  "fieldsFrom k cur [] = (if cur = [] then [] else [cur])"
| "fieldsFrom k cur (c # cs) =
     (if 0 < k then fieldsFrom (k - 1) cur cs
      else if 0 < spaceLen (c # cs)
        then (if cur = [] then [] else [cur]) @ fieldsFrom (spaceLen (c # cs) - 1) [] cs
      else fieldsFrom 0 (cur @ [c]) cs)"

definition Fields :: "string \<Rightarrow> string list" where
  \<comment> \<open>\<^verbatim>\<open>strings.Fields\<close>: the maximal runs without white space, in order\<close>
  "Fields s = fieldsFrom 0 [] s"

definition HasPrefix :: "string \<Rightarrow> string \<Rightarrow> bool" where
  "HasPrefix s p \<longleftrightarrow> prefix p s"

definition TrimPrefix :: "string \<Rightarrow> string \<Rightarrow> string" where
  "TrimPrefix s p = (if prefix p s then drop (length p) s else s)"

fun Contains :: "string \<Rightarrow> string \<Rightarrow> bool" where
  "Contains [] sub \<longleftrightarrow> sub = []"
| "Contains (c # cs) sub \<longleftrightarrow> prefix sub (c # cs) \<or> Contains cs sub"

fun Join :: "string list \<Rightarrow> string \<Rightarrow> string" where
  "Join [] sep = []"
| "Join [x] sep = x"
| "Join (x # y # zs) sep = x @ sep @ Join (y # zs) sep"

definition lowerASCII :: "char \<Rightarrow> char" where
  "lowerASCII c =
     (case map_of (zip ''ABCDEFGHIJKLMNOPQRSTUVWXYZ'' ''abcdefghijklmnopqrstuvwxyz'') c of
        Some l \<Rightarrow> l | None \<Rightarrow> c)"

text \<open>
  \<^verbatim>\<open>strings.ToLower\<close>. Two runes outside ASCII have an ASCII lower case in Go's
  \<^verbatim>\<open>unicode.ToLower\<close>: U+212A (Kelvin sign, bytes E2 84 AA) becomes \<open>k\<close> and U+0130
  (bytes C4 B0) becomes \<open>i\<close>. Every other rune outside ASCII, and every byte of
  invalid UTF-8, is mapped by Go to bytes outside ASCII again; the model leaves those
  bytes as they are. No caller below returns such bytes or tells them apart: the
  lowered text is only searched for ASCII words and matched against ASCII patterns.
\<close>

fun ToLower :: "string \<Rightarrow> string" where
  "ToLower [] = []"
| "ToLower (c # cs) =
     (if prefix [CHR 0x84, CHR 0xAA] cs \<and> c = CHR 0xE2 then CHR ''k'' # ToLower (drop 2 cs)
      else if prefix [CHR 0xB0] cs \<and> c = CHR 0xC4 then CHR ''i'' # ToLower (drop 1 cs)
      else lowerASCII c # ToLower cs)"


section \<open>The numeric parser of \<^verbatim>\<open>src/containers/jvm_param_parser.go\<close>\<close>

text \<open>
  \<^verbatim>\<open>float64\<close> values are modelled by exact rationals. The parsers compare them
  only with 0 and with the sentinel -1, so what is modelled of IEEE 754 is what decides
  those comparisons: \<^verbatim>\<open>strconv.ParseFloat\<close> fails with a range error when the decimal
  rounds to infinity (from \<open>2^1024 - 2^970\<close> on), and returns 0 without an error when
  it rounds to zero (up to \<open>2^-1075\<close>). The rounding of the 53-bit mantissa is not
  modelled: a size is kept exact.
\<close>

record JVMParams =
  JavaMaxHeapSize :: rat
  JavaInitialHeapSize :: rat
  JavaMaxHeapAsPercentage :: rat
  JavaInitialHeapAsPercentage :: rat
  XXOptions :: string

definition JVMParams_zero :: JVMParams where
  \<comment> \<open>\<^verbatim>\<open>JVMParams{}\<close>\<close>
  "JVMParams_zero =
     \<lparr>JavaMaxHeapSize = 0, JavaInitialHeapSize = 0, JavaMaxHeapAsPercentage = 0,
      JavaInitialHeapAsPercentage = 0, XXOptions = []\<rparr>"

datatype size_error = EmptySizeString | InvalidFormat | InvalidNumeric | UnknownUnit

definition digitVal :: "char \<Rightarrow> nat" where
  "digitVal c = (case map_of (zip ''0123456789'' [0, 1, 2, 3, 4, 5, 6, 7, 8, 9]) c of
                   Some d \<Rightarrow> d | None \<Rightarrow> 0)"

definition digitsToNat :: "string \<Rightarrow> nat" where
  "digitsToNat ds = foldl (\<lambda>n c. 10 * n + digitVal c) 0 ds"

definition numericPrefix :: "string \<Rightarrow> (string \<times> string) option" where
  \<comment> \<open>\<^verbatim>\<open>\d+(?:\.\d+)?\<close> at the head of the string: the text matched and the rest\<close>
  "numericPrefix s =
     (let ds = takeWhile isDigit s; r = dropWhile isDigit s in
      if ds = [] then None
      else (case r of
              [] \<Rightarrow> Some (ds, [])
            | c # r' \<Rightarrow>
                if c = CHR ''.'' \<and> takeWhile isDigit r' \<noteq> []
                then Some (ds @ [c] @ takeWhile isDigit r', dropWhile isDigit r')
                else Some (ds, r)))"

definition decimalValue :: "string \<Rightarrow> rat option" where
  \<comment> \<open>the exact value of a text of the form \<^verbatim>\<open>\d+(?:\.\d+)?\<close>\<close>
  "decimalValue s =
     (case numericPrefix s of
        Some (num, []) \<Rightarrow>
          (let ip = takeWhile isDigit num; fp = drop (length ip + 1) num in
           Some (of_nat (digitsToNat (ip @ fp)) / 10 ^ length fp))
      | _ \<Rightarrow> None)"

definition float64_overflow :: rat where
  \<comment> \<open>half way between the largest \<^verbatim>\<open>float64\<close> and \<open>2^1024\<close>: from here on a decimal rounds
      to infinity\<close>
  "float64_overflow = 2 ^ 1024 - 2 ^ 970"

definition float64_underflow :: rat where
  \<comment> \<open>half of the smallest positive \<^verbatim>\<open>float64\<close>: up to here a decimal rounds to zero\<close>
  "float64_underflow = 1 / 2 ^ 1075"

definition ParseFloat :: "string \<Rightarrow> rat option" where
  \<comment> \<open>\<^verbatim>\<open>strconv.ParseFloat(s, 64)\<close> on the texts the parsers pass, all of the form
      \<^verbatim>\<open>\d+(?:\.\d+)?\<close>; \<open>None\<close> is the error\<close>
  "ParseFloat s =
     (case decimalValue s of
        None \<Rightarrow> None
      | Some v \<Rightarrow>
          if float64_overflow \<le> v then None
          else if v \<le> float64_underflow then Some 0
          else Some v)"

definition matchSizeStr :: "string \<Rightarrow> (string \<times> string) option" where
  \<comment> \<open>\<^verbatim>\<open>^(\d+(?:\.\d+)?)([kmgKMG]?)$\<close>: the two groups\<close>
  "matchSizeStr s =
     (case numericPrefix s of
        None \<Rightarrow> None
      | Some (num, r) \<Rightarrow>
          (case r of
             [] \<Rightarrow> Some (num, [])
           | [c] \<Rightarrow> if c \<in> set ''kmgKMG'' then Some (num, [c]) else None
           | _ \<Rightarrow> None))"

definition parseMemorySize :: "string \<Rightarrow> size_error + rat" where
  "parseMemorySize sizeStr =
     (if sizeStr = [] then Inl EmptySizeString
      else case matchSizeStr sizeStr of
        None \<Rightarrow> Inl InvalidFormat
      | Some (num, u) \<Rightarrow>
          (case ParseFloat num of
             None \<Rightarrow> Inl InvalidNumeric
           | Some v \<Rightarrow>
               (let unit = ToLower u in
                if unit = ''k'' then Inr (v * 1024)
                else if unit = ''m'' then Inr (v * 1024 * 1024)
                else if unit = ''g'' then Inr (v * 1024 * 1024 * 1024)
                else if unit = [] then Inr v
                else Inl UnknownUnit)))"

fun findAllLit :: "string \<Rightarrow> int \<Rightarrow> string \<Rightarrow> (string \<times> int) list" where
  \<comment> \<open>all matches of \<^verbatim>\<open>lit([0-9]+(?:\.[0-9]+)?)\<close> from offset \<open>i\<close> on: group 1 and the
      offset of the match. The literal begins with \<open>-\<close>, which occurs nowhere else in a
      match, so no match begins inside another and the successive matches of
      \<^verbatim>\<open>FindAll\<close> are the matches at all offsets.\<close>
  "findAllLit lit i [] = []"
| "findAllLit lit i (c # cs) =
     (if prefix lit (c # cs)
      then (case numericPrefix (drop (length lit) (c # cs)) of
              Some (num, _) \<Rightarrow> [(num, i)] | None \<Rightarrow> [])
      else [])
     @ findAllLit lit (i + 1) cs"

definition parsePercentage :: "string \<Rightarrow> string \<Rightarrow> rat" where
  "parsePercentage xxOptions optionName =
     (let allMatches = findAllLit (''-XX:'' @ optionName @ ''='') 0 xxOptions in
      if allMatches \<noteq> []
      then (case ParseFloat (fst (last allMatches)) of Some v \<Rightarrow> v | None \<Rightarrow> 0)
      else 0)"

definition sizeValueAt :: "string \<Rightarrow> string option" where
  \<comment> \<open>the group \<^verbatim>\<open>(\d+[kmgKMG]?)\<close> at the head of the string\<close>
  "sizeValueAt s =
     (let ds = takeWhile isDigit s; r = dropWhile isDigit s in
      if ds = [] then None
      else Some (ds @ (case r of [] \<Rightarrow> []
                        | c # _ \<Rightarrow> if c \<in> set ''kmgKMG'' then [c] else [])))"

definition sizeFlagAt :: "string \<Rightarrow> string \<Rightarrow> string option" where
  \<comment> \<open>\<^verbatim>\<open>lit(\d+[kmgKMG]?)\<close> at the head of the string\<close>
  "sizeFlagAt lit s = (if prefix lit s then sizeValueAt (drop (length lit) s) else None)"

fun scanSize :: "string \<Rightarrow> int \<Rightarrow> string \<Rightarrow> (string \<times> int) list" where
  \<comment> \<open>the matches that begin with a white space character, at offset \<open>i\<close> or later\<close>
  "scanSize lit i [] = []"
| "scanSize lit i (c # cs) =
     (if reSpace c
      then (case sizeFlagAt lit cs of Some v \<Rightarrow> [(v, i)] | None \<Rightarrow> [])
      else [])
     @ scanSize lit (i + 1) cs"

definition findAllSize :: "string \<Rightarrow> string \<Rightarrow> (string \<times> int) list" where
  \<comment> \<open>\<^verbatim>\<open>FindAllStringSubmatch\<close> and \<^verbatim>\<open>FindAllStringIndex\<close> of
      \<^verbatim>\<open>(?:^|\s)lit(\d+[kmgKMG]?)\<close>: group 1 and the offset where the match begins (the
      white space character, or 0 at the start of the text). A match holds white space
      only as its first character and must begin at the start or with white space, so no
      match begins inside another.\<close>
  "findAllSize lit input =
     (case sizeFlagAt lit input of Some v \<Rightarrow> [(v, 0)] | None \<Rightarrow> []) @ scanSize lit 0 input"

definition rightmostStep :: "string \<times> int \<Rightarrow> string \<times> int \<Rightarrow> string \<times> int" where
  \<comment> \<open>\<^verbatim>\<open>if match.pos > rightmostPos { rightmostPos = match.pos; rightmostValue = match.value }\<close>\<close>
  "rightmostStep acc m = (if snd acc < snd m then m else acc)"

definition rightmost :: "(string \<times> int) list \<Rightarrow> string \<times> int" where
  \<comment> \<open>the loop over the matches: \<open>rightmostValue\<close> and \<open>rightmostPos\<close>, from \<open>("", -1)\<close>\<close>
  "rightmost ms = foldl rightmostStep ([], - 1) ms"

definition xxBodyAt :: "string \<Rightarrow> string option" where
  \<comment> \<open>\<^verbatim>\<open>-XX:[+-]?[A-Za-z][A-Za-z0-9]*(?:=[^\s]+)?\<close> at the head: the text matched\<close>
  "xxBodyAt s =
     (if prefix ''-XX:'' s
      then (let r = drop 4 s;
                sign = (case r of [] \<Rightarrow> [] | c # _ \<Rightarrow> if c \<in> set ''+-'' then [c] else []);
                r1 = drop (length sign) r
            in case r1 of
                 [] \<Rightarrow> None
               | c # r2 \<Rightarrow>
                   if isLetter c
                   then (let name = c # takeWhile isAlnum r2; r3 = dropWhile isAlnum r2;
                             val = (case r3 of
                                      [] \<Rightarrow> []
                                    | e # r4 \<Rightarrow>
                                        if e = CHR ''='' \<and> takeWhile (\<lambda>x. \<not> reSpace x) r4 \<noteq> []
                                        then e # takeWhile (\<lambda>x. \<not> reSpace x) r4 else [])
                         in Some (''-XX:'' @ sign @ name @ val))
                   else None)
      else None)"

fun scanXX :: "string \<Rightarrow> string list" where
  "scanXX [] = []"
| "scanXX (c # cs) =
     (if reSpace c then (case xxBodyAt cs of Some b \<Rightarrow> [c # b] | None \<Rightarrow> []) else [])
     @ scanXX cs"

definition findAllXX :: "string \<Rightarrow> string list" where
  \<comment> \<open>\<^verbatim>\<open>FindAllString\<close> of \<^verbatim>\<open>(?:^|\s)-XX:[+-]?[A-Za-z][A-Za-z0-9]*(?:=[^\s]+)?\<close>\<close>
  "findAllXX input = (case xxBodyAt input of Some b \<Rightarrow> [b] | None \<Rightarrow> []) @ scanXX input"

definition maxHeapMatches :: "string \<Rightarrow> (string \<times> int) list" where
  "maxHeapMatches input = findAllSize ''-Xmx'' input @ findAllSize ''-XX:MaxHeapSize='' input"

definition initialHeapMatches :: "string \<Rightarrow> (string \<times> int) list" where
  "initialHeapMatches input = findAllSize ''-Xms'' input @ findAllSize ''-XX:MinHeapSize='' input"

definition heapSizeOf :: "(string \<times> int) list \<Rightarrow> rat" where
  \<comment> \<open>the value a heap size field has after the rightmost loop, from 0\<close>
  "heapSizeOf ms =
     (if ms \<noteq> [] then (case parseMemorySize (fst (rightmost ms)) of Inr sz \<Rightarrow> sz | Inl _ \<Rightarrow> 0)
      else 0)"

definition xxOptionsString :: "string \<Rightarrow> string" where
  "xxOptionsString input =
     (let xxMatches = findAllXX input in
      if xxMatches \<noteq> [] then Join (map TrimSpace xxMatches) '','' else [])"

definition parseJVMParamsFromString :: "string \<Rightarrow> JVMParams" where
  "parseJVMParamsFromString input =
     (let maxPct = parsePercentage (xxOptionsString input) ''MaxRAMPercentage'';
          initPct = parsePercentage (xxOptionsString input) ''InitialRAMPercentage''
      in \<lparr>JavaMaxHeapSize = (if 0 < maxPct then - 1 else heapSizeOf (maxHeapMatches input)),
          JavaInitialHeapSize =
            (if 0 < initPct then - 1 else heapSizeOf (initialHeapMatches input)),
          JavaMaxHeapAsPercentage = maxPct,
          JavaInitialHeapAsPercentage = initPct,
          XXOptions = xxOptionsString input\<rparr>)"


section \<open>The numeric parser with the precedence rules (third file of \<^verbatim>\<open>src/unnamed/part_000\<close>)\<close>

text \<open>
  \<^verbatim>\<open>part_000\<close> holds a later revision of the same file. Its extraction of the size
  flags and of the \<^verbatim>\<open>-XX:\<close> options is the code above, line by line; it differs in
  recording the offset of the winning size flag and of the last
  \<^verbatim>\<open>-XX:MaxRAMPercentage=\<close> occurrence of the input, and in the rules that decide
  between a size and a percentage.
\<close>

definition maxHeapSizeAndPos :: "(string \<times> int) list \<Rightarrow> rat \<times> int" where
  \<comment> \<open>\<open>params.JavaMaxHeapSize\<close> and \<open>maxHeapSizePos\<close> after the rightmost loop\<close>
  "maxHeapSizeAndPos ms =
     (if ms \<noteq> []
      then (case parseMemorySize (fst (rightmost ms)) of
              Inr sz \<Rightarrow> (sz, snd (rightmost ms)) | Inl _ \<Rightarrow> (0, - 1))
      else (0, - 1))"

definition parseJVMParamsFromString_prec :: "string \<Rightarrow> JVMParams" where
  "parseJVMParamsFromString_prec input =
     (let ms = maxHeapMatches input;
          maxSize = fst (maxHeapSizeAndPos ms);
          maxHeapSizePos = snd (maxHeapSizeAndPos ms);
          initSize = heapSizeOf (initialHeapMatches input);
          maxRAMMatches = findAllLit ''-XX:MaxRAMPercentage='' 0 input;
          maxRAMPercentagePos = (if maxRAMMatches \<noteq> [] then snd (last maxRAMMatches) else - 1);
          maxPct = (if maxRAMMatches \<noteq> []
                    then parsePercentage (xxOptionsString input) ''MaxRAMPercentage'' else 0);
          initPct = parsePercentage (xxOptionsString input) ''InitialRAMPercentage''
      in \<lparr>JavaMaxHeapSize =
            (if 0 < maxPct
             then (if maxSize = 0 then - 1
                   else if 1 < length ms \<and> maxHeapSizePos < maxRAMPercentagePos then - 1
                   else maxSize)
             else maxSize),
          JavaInitialHeapSize =
            (if 0 < initPct then (if initSize = 0 then - 1 else initSize) else initSize),
          JavaMaxHeapAsPercentage = maxPct,
          JavaInitialHeapAsPercentage = initPct,
          XXOptions = xxOptionsString input\<rparr>)"

text \<open>
  \<^verbatim>\<open>parseJVMParams\<close> of both revisions. The environment of the process
  (\<^verbatim>\<open>readEnviron\<close>, a read of \<^verbatim>\<open>/proc/<pid>/environ\<close>) is a parameter: the map from
  variable names to values.
\<close>

definition envVars :: "string list" where
  "envVars = [''JAVA_TOOL_OPTIONS'', ''_JAVA_OPTIONS'', ''JDK_JAVA_OPTIONS'', ''IBM_JAVA_OPTIONS'']"

definition appendArg :: "string \<Rightarrow> string \<Rightarrow> string" where
  \<comment> \<open>one guarded write to \<open>combinedArgs\<close>: a space first unless the builder is empty\<close>
  "appendArg combinedArgs v = (if combinedArgs \<noteq> [] then combinedArgs @ '' '' @ v else v)"

definition combinedArgs :: "string \<Rightarrow> (string \<rightharpoonup> string) \<Rightarrow> string" where
  "combinedArgs cmdline env =
     (let fromEnv = foldl (\<lambda>b envVar. case env envVar of
                                          Some envValue \<Rightarrow> if envValue \<noteq> [] then appendArg b envValue else b
                                        | None \<Rightarrow> b) [] envVars
      in if cmdline \<noteq> [] then appendArg fromEnv cmdline else fromEnv)"

definition parseJVMParams :: "string \<Rightarrow> (string \<rightharpoonup> string) \<Rightarrow> JVMParams" where
  "parseJVMParams cmdline env = parseJVMParamsFromString (combinedArgs cmdline env)"

definition parseJVMParams_prec :: "string \<Rightarrow> (string \<rightharpoonup> string) \<Rightarrow> JVMParams" where
  "parseJVMParams_prec cmdline env = parseJVMParamsFromString_prec (combinedArgs cmdline env)"

text \<open>
  Where a match of the second text stands in \<open>a @ '' '' @ b\<close>: a match at the very start
  of \<open>b\<close> begins, in the whole text, at the space before \<open>b\<close>; every other match begins
  with its own white space character, \<open>length a + 1\<close> further right.
\<close>

definition offsetInBlob :: "string \<Rightarrow> string \<Rightarrow> int \<Rightarrow> int" where
  "offsetInBlob a b p =
     (if p = 0 \<and> \<not> (case b of [] \<Rightarrow> False | c # _ \<Rightarrow> reSpace c) then int (length a)
      else p + int (length a) + 1)"

definition envValue :: "(string \<rightharpoonup> string) \<Rightarrow> string \<Rightarrow> string" where
  \<comment> \<open>the value of a variable, empty when it is not set\<close>
  "envValue env v = (case env v of Some x \<Rightarrow> x | None \<Rightarrow> [])"

section \<open>The vendor-aware parser (second file of \<^verbatim>\<open>src/unnamed/part_000\<close>)\<close>

text \<open>
  In this revision every field is a string, empty when unset. The package \<^verbatim>\<open>jvm\<close>
  attaches to the process: its three calls are a parameter, each giving the text or an
  error for a process id. Logging (\<^verbatim>\<open>klog\<close>) is left out.
\<close>

record JVMParams_v =
  JavaMaxHeapSize_v :: string
  JavaInitialHeapSize_v :: string
  JavaMaxHeapAsPercentage_v :: string
  JavaInitialHeapAsPercentage_v :: string
  GCType_v :: string

definition JVMParams_v_zero :: JVMParams_v where
  \<comment> \<open>\<^verbatim>\<open>JVMParams{}\<close>\<close>
  "JVMParams_v_zero =
     \<lparr>JavaMaxHeapSize_v = [], JavaInitialHeapSize_v = [], JavaMaxHeapAsPercentage_v = [],
      JavaInitialHeapAsPercentage_v = [], GCType_v = []\<rparr>"

datatype JVMVendor = JVMVendorUnknown | JVMVendorHotSpot | JVMVendorOpenJ9 | JVMVendorGraalVM

datatype attach_error = AttachFailed | CommandFailed

record jvm_package =
  GetVMFlags :: "32 word \<Rightarrow> attach_error + string"
  GetSystemProperties :: "32 word \<Rightarrow> attach_error + string"
  GetVersion :: "32 word \<Rightarrow> attach_error + string"

definition detectJVMVendor :: "string \<Rightarrow> JVMVendor" where
  "detectJVMVendor vmFlagsOutput =
     (let output = ToLower vmFlagsOutput in
      if Contains output ''openj9'' \<or> Contains output ''eclipse'' \<or> Contains output ''ibm''
        then JVMVendorOpenJ9
      else if Contains output ''graalvm'' \<or> Contains output ''graal'' then JVMVendorGraalVM
      else if Contains output ''hotspot'' \<or> Contains output ''openjdk'' \<or> Contains output ''oracle''
        then JVMVendorHotSpot
      else if Contains output ''-xx:maxheapsize='' \<or> Contains output ''-xx:initialheapsize=''
        then JVMVendorHotSpot
      else JVMVendorUnknown)"

definition detectJVMVendorWithSystemProperties :: "jvm_package \<Rightarrow> 32 word \<Rightarrow> JVMVendor" where
  "detectJVMVendorWithSystemProperties jvm pid =
     (case GetSystemProperties jvm pid of
        Inl err \<Rightarrow> JVMVendorUnknown
      | Inr p \<Rightarrow>
          (let props = ToLower p in
           if Contains props ''java.vm.name''
              \<and> (Contains props ''openj9'' \<or> Contains props ''eclipse'' \<or> Contains props ''ibm'')
             then JVMVendorOpenJ9
           else if Contains props ''java.vm.name'' \<and> Contains props ''graalvm''
             then JVMVendorGraalVM
           else if Contains props ''java.vm.name''
              \<and> (Contains props ''hotspot'' \<or> Contains props ''openjdk'')
             then JVMVendorHotSpot
           else if Contains props ''java.vendor''
              \<and> (Contains props ''eclipse'' \<or> Contains props ''ibm'')
             then JVMVendorOpenJ9
           else if Contains props ''java.vendor'' \<and> Contains props ''oracle''
             then JVMVendorHotSpot
           else (case GetVersion jvm pid of
                   Inl err \<Rightarrow> JVMVendorUnknown
                 | Inr v \<Rightarrow>
                     (let version = ToLower v in
                      if Contains version ''openj9'' \<or> Contains version ''eclipse''
                         \<or> Contains version ''ibm''
                        then JVMVendorOpenJ9
                      else if Contains version ''graalvm'' then JVMVendorGraalVM
                      else if Contains version ''hotspot'' \<or> Contains version ''openjdk''
                        then JVMVendorHotSpot
                      else JVMVendorUnknown))))"

definition sizeWithUnit :: "string \<Rightarrow> (string \<times> string) option" where
  \<comment> \<open>\<^verbatim>\<open>^(\d+(?:\.\d+)?)\s*([kmgt]?)b?$\<close>: the two groups\<close>
  "sizeWithUnit s =
     (case numericPrefix s of
        None \<Rightarrow> None
      | Some (num, r) \<Rightarrow>
          (let r1 = dropWhile reSpace r;
               unit = (case r1 of [] \<Rightarrow> [] | c # _ \<Rightarrow> if c \<in> set ''kmgt'' then [c] else []);
               r2 = drop (length unit) r1;
               r3 = (case r2 of [] \<Rightarrow> [] | c # r' \<Rightarrow> if c = CHR ''b'' then r' else r2)
           in if r3 = [] then Some (num, unit) else None))"

definition multiplierText :: "string \<Rightarrow> string" where
  \<comment> \<open>\<^verbatim>\<open>fmt.Sprintf("%d", multiplier)\<close> for the unit\<close>
  "multiplierText unit =
     (if unit = ''k'' then ''1024''
      else if unit = ''m'' then ''1048576''
      else if unit = ''g'' then ''1073741824''
      else if unit = ''t'' then ''1099511627776''
      else ''1'')"

definition parseSize :: "string \<Rightarrow> string" where
  \<comment> \<open>the multiplication sign written between number and multiplier is U+00D7, bytes C3 97\<close>
  "parseSize sizeStr =
     (if sizeStr = [] then []
      else (let s = ToLower (TrimSpace sizeStr) in
            if s = [] then []
            else if list_all isDigit s then s
            else (case sizeWithUnit s of
                    Some (numStr, unit) \<Rightarrow>
                      (let num = takeWhile isDigit numStr in
                       if num \<noteq> [] then num @ [CHR 0xC3, CHR 0x97] @ multiplierText unit
                       else numStr @ unit)
                  | None \<Rightarrow> [])))"

fun parseGCTypeFromCmdline :: "string list \<Rightarrow> string" where
  "parseGCTypeFromCmdline [] = ''Unknown''"
| "parseGCTypeFromCmdline (arg # args) =
     (if Contains arg ''-XX:+UseZGC'' then ''ZGC''
      else if Contains arg ''-XX:+UseShenandoahGC'' then ''ShenandoahGC''
      else if Contains arg ''-XX:+UseG1GC'' then ''G1GC''
      else if Contains arg ''-XX:+UseParallelGC'' then ''ParallelGC''
      else if Contains arg ''-XX:+UseParallelOldGC'' then ''ParallelOldGC''
      else if Contains arg ''-XX:+UseConcMarkSweepGC'' then ''ConcMarkSweepGC''
      else if Contains arg ''-XX:+UseSerialGC'' then ''SerialGC''
      else if Contains arg ''-Xgcpolicy:gencon'' then ''Generational Concurrent (OpenJ9)''
      else if Contains arg ''-Xgcpolicy:optthruput'' then ''Throughput (OpenJ9)''
      else if Contains arg ''-Xgcpolicy:optavgpause'' then ''Average Pause (OpenJ9)''
      else if Contains arg ''-Xgcpolicy:balanced'' then ''Balanced (OpenJ9)''
      else parseGCTypeFromCmdline args)"

definition gcFlags :: "(string \<times> string) list" where
  "gcFlags =
     [(''+UseZGC'', ''ZGC''), (''+UseShenandoahGC'', ''ShenandoahGC''), (''+UseG1GC'', ''G1GC''),
      (''+UseParallelGC'', ''ParallelGC''), (''+UseParallelOldGC'', ''ParallelOldGC''),
      (''+UseConcMarkSweepGC'', ''ConcMarkSweepGC''), (''+UseSerialGC'', ''SerialGC'')]"

definition detectInFlag :: "string \<Rightarrow> string \<Rightarrow> string" where
  \<comment> \<open>the inner loop over \<open>gcFlags\<close> for one flag, from the value of \<open>detectedGC\<close> so far\<close>
  "detectInFlag detectedGC flag =
     foldl (\<lambda>d gc. if Contains flag (fst gc) then snd gc else d) detectedGC gcFlags"

fun inferFromFlags :: "string list \<Rightarrow> string option" where
  \<comment> \<open>the second loop: the first \<open>return\<close> reached, \<open>None\<close> when the loop ends\<close>
  "inferFromFlags [] = None"
| "inferFromFlags (flag # flags) =
     (if Contains flag ''G1'' then Some ''G1GC''
      else if Contains flag ''Parallel'' \<and> \<not> Contains flag ''-UseParallelGC'' then Some ''ParallelGC''
      else if Contains flag ''ConcMarkSweep'' \<or> Contains flag ''CMS'' then Some ''ConcMarkSweepGC''
      else if Contains flag ''Serial'' \<and> \<not> Contains flag ''-UseSerialGC'' then Some ''SerialGC''
      else inferFromFlags flags)"

definition parseHotSpotGCType :: "string list \<Rightarrow> string" where
  "parseHotSpotGCType flags =
     (let detectedGC = foldl detectInFlag [] flags in
      if detectedGC = []
      then (case inferFromFlags flags of Some gc \<Rightarrow> gc | None \<Rightarrow> ''Unknown'')
      else detectedGC)"

fun parseOpenJ9GCType :: "string list \<Rightarrow> string" where
  "parseOpenJ9GCType [] = ''Unknown (OpenJ9)''"
| "parseOpenJ9GCType (flag # flags) =
     (if Contains flag ''gencon'' then ''Generational Concurrent (OpenJ9)''
      else if Contains flag ''optthruput'' then ''Throughput (OpenJ9)''
      else if Contains flag ''optavgpause'' then ''Average Pause (OpenJ9)''
      else if Contains flag ''balanced'' then ''Balanced (OpenJ9)''
      else parseOpenJ9GCType flags)"

definition parseGCType :: "string list \<Rightarrow> JVMVendor \<Rightarrow> string" where
  "parseGCType flags vendor =
     (case vendor of JVMVendorOpenJ9 \<Rightarrow> parseOpenJ9GCType flags | _ \<Rightarrow> parseHotSpotGCType flags)"

fun extractAfter :: "string \<Rightarrow> string \<Rightarrow> string" where
  \<comment> \<open>group 1 of the leftmost match of \<^verbatim>\<open>lit([^\s]+)\<close>, empty when there is no match\<close>
  "extractAfter lit [] = []"
| "extractAfter lit (c # cs) =
     (if prefix lit (c # cs) \<and> takeWhile (\<lambda>x. \<not> reSpace x) (drop (length lit) (c # cs)) \<noteq> []
      then takeWhile (\<lambda>x. \<not> reSpace x) (drop (length lit) (c # cs))
      else extractAfter lit cs)"

definition extractFlagValue :: "string \<Rightarrow> string \<Rightarrow> string" where
  \<comment> \<open>the pattern is \<^verbatim>\<open>-XX:%s=([^\s]+)\<close> with the flag name put in; every caller passes
      a name of letters\<close>
  "extractFlagValue line flagName = extractAfter (''-XX:'' @ flagName @ ''='') line"

definition hotSpotFlag :: "JVMParams_v \<Rightarrow> string \<Rightarrow> JVMParams_v" where
  \<comment> \<open>the body of the loop of \<^verbatim>\<open>parseHotSpotVMFlags\<close>\<close>
  "hotSpotFlag params f =
     (let flag = TrimSpace f in
      if flag = [] then params
      else if HasPrefix flag ''-XX:'' then
        (if Contains flag ''MaxHeapSize='' then
           (let v = extractFlagValue flag ''MaxHeapSize'' in
            if v \<noteq> [] then params\<lparr>JavaMaxHeapSize_v := v\<rparr> else params)
         else if Contains flag ''MinHeapSize='' then
           (let v = extractFlagValue flag ''MinHeapSize'' in
            if v \<noteq> [] then params\<lparr>JavaInitialHeapSize_v := v\<rparr> else params)
         else if Contains flag ''InitialHeapSize='' then
           (let v = extractFlagValue flag ''InitialHeapSize'' in
            if v \<noteq> [] then params\<lparr>JavaInitialHeapSize_v := v\<rparr> else params)
         else if Contains flag ''MaxRAMPercentage='' then
           (let v = extractFlagValue flag ''MaxRAMPercentage'' in
            if v \<noteq> [] then params\<lparr>JavaMaxHeapAsPercentage_v := v\<rparr> else params)
         else if Contains flag ''InitialRAMPercentage='' then
           (let v = extractFlagValue flag ''InitialRAMPercentage'' in
            if v \<noteq> [] then params\<lparr>JavaInitialHeapAsPercentage_v := v\<rparr> else params)
         else params)
      else params)"

definition parseHotSpotVMFlags :: "string \<Rightarrow> JVMParams_v" where
  "parseHotSpotVMFlags vmFlagsOutput = foldl hotSpotFlag JVMParams_v_zero (Fields vmFlagsOutput)"

definition extractOpenJ9Size :: "string \<Rightarrow> string \<Rightarrow> string" where
  "extractOpenJ9Size flag pre =
     (if \<not> HasPrefix flag pre then [] else parseSize (TrimPrefix flag pre))"

definition openJ9Flag :: "JVMParams_v \<Rightarrow> string \<Rightarrow> JVMParams_v" where
  \<comment> \<open>the body of the loop of \<^verbatim>\<open>parseOpenJ9VMFlags\<close>\<close>
  "openJ9Flag params f =
     (let flag = TrimSpace f in
      if flag = [] then params
      else if Contains flag ''-Xmx'' then
        (let v = extractOpenJ9Size flag ''-Xmx'' in
         if v \<noteq> [] then params\<lparr>JavaMaxHeapSize_v := v\<rparr> else params)
      else if Contains flag ''-Xms'' then
        (let v = extractOpenJ9Size flag ''-Xms'' in
         if v \<noteq> [] then params\<lparr>JavaInitialHeapSize_v := v\<rparr> else params)
      else if HasPrefix flag ''-XX:'' \<and> Contains flag ''='' then
        (if Contains flag ''MaxHeapSize='' then
           (let v = extractFlagValue flag ''MaxHeapSize'' in
            if v \<noteq> [] then params\<lparr>JavaMaxHeapSize_v := v\<rparr> else params)
         else if Contains flag ''InitialHeapSize='' then
           (let v = extractFlagValue flag ''InitialHeapSize'' in
            if v \<noteq> [] then params\<lparr>JavaInitialHeapSize_v := v\<rparr> else params)
         else params)
      else params)"

definition parseOpenJ9VMFlags :: "string \<Rightarrow> JVMParams_v" where
  "parseOpenJ9VMFlags vmFlagsOutput = foldl openJ9Flag JVMParams_v_zero (Fields vmFlagsOutput)"

definition parseGraalVMFlags :: "string \<Rightarrow> JVMParams_v" where
  "parseGraalVMFlags vmFlagsOutput = parseHotSpotVMFlags vmFlagsOutput"

definition parseVMFlagsOutput :: "string \<Rightarrow> JVMVendor \<Rightarrow> JVMParams_v" where
  "parseVMFlagsOutput vmFlagsOutput vendor =
     (if TrimSpace vmFlagsOutput = [] then JVMParams_v_zero
      else (let params = (case vendor of
                            JVMVendorOpenJ9 \<Rightarrow> parseOpenJ9VMFlags vmFlagsOutput
                          | JVMVendorGraalVM \<Rightarrow> parseGraalVMFlags vmFlagsOutput
                          | _ \<Rightarrow> parseHotSpotVMFlags vmFlagsOutput)
            in params\<lparr>GCType_v := parseGCType (Fields vmFlagsOutput) vendor\<rparr>))"

definition cmdlineArg :: "JVMParams_v \<Rightarrow> string \<Rightarrow> JVMParams_v" where
  \<comment> \<open>the body of the loop of \<^verbatim>\<open>parseFromCmdline\<close>\<close>
  "cmdlineArg params arg =
     (if HasPrefix arg ''-Xmx'' then
        (let sz = parseSize (TrimPrefix arg ''-Xmx'') in
         if sz \<noteq> [] then params\<lparr>JavaMaxHeapSize_v := sz\<rparr> else params)
      else if HasPrefix arg ''-Xms'' then
        (let sz = parseSize (TrimPrefix arg ''-Xms'') in
         if sz \<noteq> [] then params\<lparr>JavaInitialHeapSize_v := sz\<rparr> else params)
      else if HasPrefix arg ''-XX:MaxHeapSize='' then
        params\<lparr>JavaMaxHeapSize_v := TrimPrefix arg ''-XX:MaxHeapSize=''\<rparr>
      else if HasPrefix arg ''-XX:InitialHeapSize='' then
        params\<lparr>JavaInitialHeapSize_v := TrimPrefix arg ''-XX:InitialHeapSize=''\<rparr>
      else if HasPrefix arg ''-XX:MaxRAMPercentage='' then
        params\<lparr>JavaMaxHeapAsPercentage_v := TrimPrefix arg ''-XX:MaxRAMPercentage=''\<rparr>
      else if HasPrefix arg ''-XX:InitialRAMPercentage='' then
        params\<lparr>JavaInitialHeapAsPercentage_v := TrimPrefix arg ''-XX:InitialRAMPercentage=''\<rparr>
      else params)"

definition parseFromCmdline :: "string \<Rightarrow> JVMParams_v" where
  \<comment> \<open>the process id is only logged\<close>
  "parseFromCmdline cmdline =
     (foldl cmdlineArg JVMParams_v_zero (Fields cmdline))
       \<lparr>GCType_v := parseGCTypeFromCmdline (Fields cmdline)\<rparr>"

definition mergeFallback :: "JVMParams_v \<Rightarrow> JVMParams_v \<Rightarrow> JVMParams_v" where
  \<comment> \<open>the five assignments inside the fallback branch of \<^verbatim>\<open>ParseJVMParams\<close>, in order\<close>
  "mergeFallback params cmdlineParams =
     (let p1 = (if JavaMaxHeapSize_v cmdlineParams \<noteq> []
                then params\<lparr>JavaMaxHeapSize_v := JavaMaxHeapSize_v cmdlineParams\<rparr> else params);
          p2 = (if JavaInitialHeapSize_v cmdlineParams \<noteq> []
                then p1\<lparr>JavaInitialHeapSize_v := JavaInitialHeapSize_v cmdlineParams\<rparr> else p1);
          p3 = (if JavaMaxHeapAsPercentage_v cmdlineParams \<noteq> []
                then p2\<lparr>JavaMaxHeapAsPercentage_v := JavaMaxHeapAsPercentage_v cmdlineParams\<rparr>
                else p2);
          p4 = (if JavaInitialHeapAsPercentage_v cmdlineParams \<noteq> []
                then p3\<lparr>JavaInitialHeapAsPercentage_v :=
                          JavaInitialHeapAsPercentage_v cmdlineParams\<rparr>
                else p3)
      in if GCType_v p4 = ''Unknown'' \<and> GCType_v cmdlineParams \<noteq> ''Unknown''
         then p4\<lparr>GCType_v := GCType_v cmdlineParams\<rparr> else p4)"

definition ParseJVMParams :: "jvm_package \<Rightarrow> string \<Rightarrow> 32 word \<Rightarrow> JVMParams_v" where
  "ParseJVMParams jvm cmdline pid =
     (case GetVMFlags jvm pid of
        Inl err \<Rightarrow> parseFromCmdline cmdline
      | Inr vmFlags \<Rightarrow>
          (let v = detectJVMVendorWithSystemProperties jvm pid;
               vendor = (if v = JVMVendorUnknown then detectJVMVendor vmFlags else v);
               params = parseVMFlagsOutput vmFlags vendor
           in if JavaMaxHeapSize_v params = [] \<and> JavaInitialHeapSize_v params = []
              then mergeFallback params (parseFromCmdline cmdline)
              else params))"

section \<open>The flag dump parser with RAM fractions (first file of \<^verbatim>\<open>src/unnamed/part_000\<close>)\<close>

text \<open>
  This revision reads a fraction with \<^verbatim>\<open>strconv.ParseFloat\<close> from any text without
  white space, tests it against 0 and prints \<^verbatim>\<open>100.0/fraction\<close> with
  \<^verbatim>\<open>fmt.Sprintf("%.1f", ...)\<close>. The three operations on \<^verbatim>\<open>float64\<close> are parameters of
  the model, over any type of values: the parser is modelled for every behaviour of
  theirs.
\<close>

record JVMParams_d =
  JavaMaxHeapSize_d :: string
  JavaInitialHeapSize_d :: string
  JavaMaxHeapAsPercentage_d :: string
  JavaInitialHeapAsPercentage_d :: string
  MinRAMPercentage_d :: string
  GCType_d :: string

definition JVMParams_d_zero :: JVMParams_d where
  "JVMParams_d_zero =
     \<lparr>JavaMaxHeapSize_d = [], JavaInitialHeapSize_d = [], JavaMaxHeapAsPercentage_d = [],
      JavaInitialHeapAsPercentage_d = [], MinRAMPercentage_d = [], GCType_d = []\<rparr>"

record 'f float64_ops =
  parseFloat64 :: "string \<Rightarrow> 'f option"     \<comment> \<open>\<^verbatim>\<open>strconv.ParseFloat(value, 64)\<close>, \<open>None\<close> the error\<close>
  greaterThanZero :: "'f \<Rightarrow> bool"            \<comment> \<open>\<^verbatim>\<open>fraction > 0\<close>\<close>
  percentOfFraction :: "'f \<Rightarrow> string"        \<comment> \<open>\<^verbatim>\<open>fmt.Sprintf("%.1f", 100.0/fraction)\<close>\<close>

definition fractionAsPercentage :: "'f float64_ops \<Rightarrow> string \<Rightarrow> string option" where
  \<comment> \<open>what a fraction flag with this value writes, if anything\<close>
  "fractionAsPercentage ops v =
     (if v \<noteq> []
      then (case parseFloat64 ops v of
              Some fraction \<Rightarrow>
                if greaterThanZero ops fraction then Some (percentOfFraction ops fraction) else None
            | None \<Rightarrow> None)
      else None)"

definition parseGCType_d :: "string list \<Rightarrow> string" where
  \<comment> \<open>\<^verbatim>\<open>parseGCType\<close> of this revision: the text of \<^verbatim>\<open>parseHotSpotGCType\<close>\<close>
  "parseGCType_d flags =
     (let detectedGC = foldl detectInFlag [] flags in
      if detectedGC = []
      then (case inferFromFlags flags of Some gc \<Rightarrow> gc | None \<Rightarrow> ''Unknown'')
      else detectedGC)"

definition vmFlag_d :: "'f float64_ops \<Rightarrow> JVMParams_d \<Rightarrow> string \<Rightarrow> JVMParams_d" where
  \<comment> \<open>the body of the loop of \<^verbatim>\<open>parseVMFlagsOutput\<close>\<close>
  "vmFlag_d ops params f =
     (let flag = TrimSpace f in
      if flag = [] then params
      else if HasPrefix flag ''-XX:'' then
        (if Contains flag ''MaxHeapSize='' then
           (let v = extractFlagValue flag ''MaxHeapSize'' in
            if v \<noteq> [] then params\<lparr>JavaMaxHeapSize_d := v\<rparr> else params)
         else if Contains flag ''MinHeapSize='' then
           (let v = extractFlagValue flag ''MinHeapSize'' in
            if v \<noteq> [] then params\<lparr>JavaInitialHeapSize_d := v\<rparr> else params)
         else if Contains flag ''InitialHeapSize='' then
           (let v = extractFlagValue flag ''InitialHeapSize'' in
            if v \<noteq> [] then params\<lparr>JavaInitialHeapSize_d := v\<rparr> else params)
         else if Contains flag ''MaxRAMPercentage='' then
           (let v = extractFlagValue flag ''MaxRAMPercentage'' in
            if v \<noteq> [] then params\<lparr>JavaMaxHeapAsPercentage_d := v\<rparr> else params)
         else if Contains flag ''InitialRAMPercentage='' then
           (let v = extractFlagValue flag ''InitialRAMPercentage'' in
            if v \<noteq> [] then params\<lparr>JavaInitialHeapAsPercentage_d := v\<rparr> else params)
         else if Contains flag ''MinRAMPercentage='' then
           (let v = extractFlagValue flag ''MinRAMPercentage'' in
            if v \<noteq> [] then params\<lparr>MinRAMPercentage_d := v\<rparr> else params)
         else if Contains flag ''MaxRAMFraction='' then
           (if JavaMaxHeapAsPercentage_d params = []
            then (case fractionAsPercentage ops (extractFlagValue flag ''MaxRAMFraction'') of
                    Some s \<Rightarrow> params\<lparr>JavaMaxHeapAsPercentage_d := s\<rparr> | None \<Rightarrow> params)
            else params)
         else if Contains flag ''InitialRAMFraction='' then
           (if JavaInitialHeapAsPercentage_d params = []
            then (case fractionAsPercentage ops (extractFlagValue flag ''InitialRAMFraction'') of
                    Some s \<Rightarrow> params\<lparr>JavaInitialHeapAsPercentage_d := s\<rparr> | None \<Rightarrow> params)
            else params)
         else if Contains flag ''MinRAMFraction='' then
           (if MinRAMPercentage_d params = []
            then (case fractionAsPercentage ops (extractFlagValue flag ''MinRAMFraction'') of
                    Some s \<Rightarrow> params\<lparr>MinRAMPercentage_d := s\<rparr> | None \<Rightarrow> params)
            else params)
         else params)
      else params)"

definition parseVMFlagsOutput_d :: "'f float64_ops \<Rightarrow> string \<Rightarrow> JVMParams_d" where
  "parseVMFlagsOutput_d ops vmFlagsOutput =
     (foldl (vmFlag_d ops) JVMParams_d_zero (Fields vmFlagsOutput))
       \<lparr>GCType_d := parseGCType_d (Fields vmFlagsOutput)\<rparr>"

text \<open>
  One behaviour of the three operations, for decimal texts: the decimal parser of the
  numeric revision, the order of the rationals, and the exact quotient printed with one
  digit after the point, a tie going to the even digit.
\<close>

definition digitChar :: "nat \<Rightarrow> char" where
  "digitChar n = ''0123456789'' ! (n mod 10)"

fun digitsOfNat :: "nat \<Rightarrow> string" where
  "digitsOfNat n = (if n < 10 then [digitChar n] else digitsOfNat (n div 10) @ [digitChar n])"

definition roundHalfEven :: "rat \<Rightarrow> int" where
  "roundHalfEven x =
     (let f = \<lfloor>x\<rfloor>; r = x - of_int f in
      if r < 1 / 2 then f else if 1 / 2 < r then f + 1 else if even f then f else f + 1)"

definition formatOneDecimal :: "rat \<Rightarrow> string" where
  \<comment> \<open>\<^verbatim>\<open>%.1f\<close> of a value that is not negative\<close>
  "formatOneDecimal x =
     (let n = nat (roundHalfEven (10 * x)) in digitsOfNat (n div 10) @ ''.'' @ [digitChar n])"

definition decimal_ops :: "rat float64_ops" where
  "decimal_ops =
     \<lparr>parseFloat64 = ParseFloat, greaterThanZero = (\<lambda>x. 0 < x),
      percentOfFraction = (\<lambda>x. formatOneDecimal (100 / x))\<rparr>"

section \<open>Notions the statements about the garbage collector use\<close>

definition explicitEnables :: "string list \<Rightarrow> string list" where
  \<comment> \<open>the collectors of all pairs (flag, table entry) where the flag holds the entry's
      text, in the order of the scan: flag by flag, and for each flag down the table\<close>
  "explicitEnables flags =
     concat (map (\<lambda>flag. map snd (filter (\<lambda>gc. Contains flag (fst gc)) gcFlags)) flags)"

definition categoryOf :: "string \<Rightarrow> string option" where
  \<comment> \<open>the category one flag is put in by the substring tests, in their order\<close>
  "categoryOf flag =
     (if Contains flag ''G1'' then Some ''G1GC''
      else if Contains flag ''Parallel'' \<and> \<not> Contains flag ''-UseParallelGC'' then Some ''ParallelGC''
      else if Contains flag ''ConcMarkSweep'' \<or> Contains flag ''CMS'' then Some ''ConcMarkSweepGC''
      else if Contains flag ''Serial'' \<and> \<not> Contains flag ''-UseSerialGC'' then Some ''SerialGC''
      else None)"

definition spec_inferByPriority :: "string list \<Rightarrow> string" where
  \<comment> \<open>the inference as the specification words it: the categories tried in their
      priority order, each over all flags\<close>
  "spec_inferByPriority flags =
     (if list_ex (\<lambda>f. Contains f ''G1'') flags then ''G1GC''
      else if list_ex (\<lambda>f. Contains f ''Parallel'' \<and> \<not> Contains f ''-UseParallelGC'') flags
        then ''ParallelGC''
      else if list_ex (\<lambda>f. Contains f ''ConcMarkSweep'' \<or> Contains f ''CMS'') flags
        then ''ConcMarkSweepGC''
      else if list_ex (\<lambda>f. Contains f ''Serial'' \<and> \<not> Contains f ''-UseSerialGC'') flags
        then ''SerialGC''
      else ''Unknown'')"

section \<open>Notions the statements about the flag dump parser use\<close>

definition plainChars :: string where
  "plainChars = ''ABCDEFGHIJKLMNOPQRSTUVWXYZabcdefghijklmnopqrstuvwxyz0123456789.+-''"

definition plainValue :: "string \<Rightarrow> bool" where
  \<comment> \<open>a flag value of letters, digits, point and sign: no white space, no \<open>=\<close>\<close>
  "plainValue v \<longleftrightarrow> v \<noteq> [] \<and> (\<forall>c\<in>set v. c \<in> set plainChars)"

section \<open>Notions the statements about the command line pass use\<close>









section \<open>Facts about the numeric parser\<close>

subsection \<open>Numbers\<close>

lemma float64_bounds: "(2::rat) ^ 64 < float64_overflow" "float64_underflow < 1"
  by (simp_all add: float64_overflow_def float64_underflow_def)

lemma ParseFloat_exact:
  assumes "decimalValue s = Some v" "v = 0 \<or> 1 \<le> v" "v \<le> 2 ^ 64"
  shows "ParseFloat s = Some v"
proof -
  have "\<not> float64_overflow \<le> v" using assms(3) float64_bounds(1) by linarith
  moreover have "v \<le> float64_underflow \<Longrightarrow> v = 0"
    using assms(2) float64_bounds(2) by linarith
  ultimately show ?thesis using assms(1) by (auto simp: ParseFloat_def)
qed

lemma decimalValue_nonneg: "decimalValue s = Some v \<Longrightarrow> 0 \<le> v"
  by (auto simp: decimalValue_def Let_def split: option.splits prod.splits list.splits)

lemma ParseFloat_nonneg: "ParseFloat s = Some v \<Longrightarrow> 0 \<le> v"
  by (auto simp: ParseFloat_def split: option.splits if_splits dest: decimalValue_nonneg)

lemma parseMemorySize_nonneg: "parseMemorySize s = Inr v \<Longrightarrow> 0 \<le> v"
  by (auto simp: parseMemorySize_def Let_def split: option.splits if_splits prod.splits
      dest: ParseFloat_nonneg)

lemma heapSizeOf_nonneg: "0 \<le> heapSizeOf ms"
  by (auto simp: heapSizeOf_def split: sum.splits dest: parseMemorySize_nonneg)

lemma parsePercentage_nonneg: "0 \<le> parsePercentage xx n"
  by (auto simp: parsePercentage_def Let_def split: option.splits dest: ParseFloat_nonneg)

subsection \<open>The rightmost loop\<close>

lemma foldl_rightmostStep:
  "(foldl rightmostStep a ms = a \<or> foldl rightmostStep a ms \<in> set ms)
   \<and> snd a \<le> snd (foldl rightmostStep a ms)
   \<and> (\<forall>m\<in>set ms. snd m \<le> snd (foldl rightmostStep a ms))"
proof (induction ms arbitrary: a)
  case Nil
  show ?case by simp
next
  case (Cons m ms)
  from Cons.IH[of "rightmostStep a m"] show ?case
    by (auto simp: rightmostStep_def split: if_splits)
qed

lemma scanSize_pos: "m \<in> set (scanSize lit i s) \<Longrightarrow> i \<le> snd m \<and> snd m < i + int (length s)"
proof (induction s arbitrary: i)
  case Nil
  then show ?case by simp
next
  case (Cons c cs)
  have "m \<in> set (scanSize lit (i + 1) cs) \<or> snd m = i"
    using Cons.prems by (cases "reSpace c"; cases "sizeFlagAt lit cs") auto
  then show ?case using Cons.IH[of "i + 1"] by auto
qed

lemma findAllSize_pos: "m \<in> set (findAllSize lit s) \<Longrightarrow> 0 \<le> snd m"
  by (auto simp: findAllSize_def split: option.splits dest: scanSize_pos)

lemma maxHeapMatches_pos: "m \<in> set (maxHeapMatches s) \<Longrightarrow> 0 \<le> snd m"
  by (auto simp: maxHeapMatches_def dest: findAllSize_pos)

lemma initialHeapMatches_pos: "m \<in> set (initialHeapMatches s) \<Longrightarrow> 0 \<le> snd m"
  by (auto simp: initialHeapMatches_def dest: findAllSize_pos)

lemma rightmost_greatest: "m \<in> set ms \<Longrightarrow> snd m \<le> snd (rightmost ms)"
  using foldl_rightmostStep[of "([], - 1)" ms] by (simp add: rightmost_def)

lemma rightmost_member:
  assumes "ms \<noteq> []" "\<forall>m\<in>set ms. 0 \<le> snd m"
  shows "rightmost ms \<in> set ms"
proof -
  obtain m where m: "m \<in> set ms" using assms(1) by (cases ms) auto
  have "0 \<le> snd (rightmost ms)" using rightmost_greatest[OF m] assms(2) m by force
  then have "rightmost ms \<noteq> ([], - 1)" by auto
  then show ?thesis using foldl_rightmostStep[of "([], - 1)" ms] by (simp add: rightmost_def)
qed


subsection \<open>Evaluation at concrete inputs\<close>

lemma ParseFloat_0: "ParseFloat ''0'' = Some 0"
  by (rule ParseFloat_exact, code_simp) simp_all

lemma ParseFloat_1: "ParseFloat ''1'' = Some 1"
  by (rule ParseFloat_exact, code_simp) simp_all

lemma ParseFloat_2: "ParseFloat ''2'' = Some 2"
  by (rule ParseFloat_exact, code_simp) simp_all

lemma ParseFloat_4: "ParseFloat ''4'' = Some 4"
  by (rule ParseFloat_exact, code_simp) simp_all

lemma ParseFloat_8: "ParseFloat ''8'' = Some 8"
  by (rule ParseFloat_exact, code_simp) simp_all

lemma ParseFloat_50: "ParseFloat ''50'' = Some 50"
  by (rule ParseFloat_exact, code_simp) simp_all

lemma ParseFloat_512: "ParseFloat ''512'' = Some 512"
  by (rule ParseFloat_exact, code_simp) simp_all

lemmas parseMemorySize_unfold =
  parseMemorySize_def matchSizeStr_def numericPrefix_def isDigit_def lowerASCII_def

lemma parseMemorySize_0: "parseMemorySize ''0'' = Inr 0"
  by (simp add: parseMemorySize_unfold ParseFloat_0)

lemma parseMemorySize_1: "parseMemorySize ''1'' = Inr 1"
  by (simp add: parseMemorySize_unfold ParseFloat_1)

lemma parseMemorySize_2: "parseMemorySize ''2'' = Inr 2"
  by (simp add: parseMemorySize_unfold ParseFloat_2)

lemma parseMemorySize_1g: "parseMemorySize ''1g'' = Inr (1024 ^ 3)"
  by (simp add: parseMemorySize_unfold ParseFloat_1)

lemma parseMemorySize_2g: "parseMemorySize ''2g'' = Inr (2 * 1024 ^ 3)"
  by (simp add: parseMemorySize_unfold ParseFloat_2)

lemma parseMemorySize_4g: "parseMemorySize ''4g'' = Inr (4 * 1024 ^ 3)"
  by (simp add: parseMemorySize_unfold ParseFloat_4)

lemma parseMemorySize_8g: "parseMemorySize ''8g'' = Inr (8 * 1024 ^ 3)"
  by (simp add: parseMemorySize_unfold ParseFloat_8)

lemma parseMemorySize_512m: "parseMemorySize ''512m'' = Inr (512 * 1024 ^ 2)"
  by (simp add: parseMemorySize_unfold ParseFloat_512)

lemma parsePercentage_absent:
  "findAllLit (''-XX:'' @ n @ ''='') 0 xx = [] \<Longrightarrow> parsePercentage xx n = 0"
  by (simp add: parsePercentage_def)

lemmas heapSizeOf_unfold = heapSizeOf_def rightmost_def rightmostStep_def

subsection \<open>The size and the offset the later revision records\<close>

lemma maxHeapSizeAndPos_size: "fst (maxHeapSizeAndPos ms) = heapSizeOf ms"
  by (simp add: maxHeapSizeAndPos_def heapSizeOf_def split: sum.splits)

lemma maxHeapSizeAndPos_pos:
  "heapSizeOf ms \<noteq> 0 \<Longrightarrow> ms \<noteq> [] \<and> snd (maxHeapSizeAndPos ms) = snd (rightmost ms)"
  by (auto simp: maxHeapSizeAndPos_def heapSizeOf_def split: sum.splits if_splits)

lemma rightmost_before:
  assumes "ms \<noteq> []" "\<forall>m\<in>set ms. 0 \<le> snd m"
  shows "snd (rightmost ms) < p \<longleftrightarrow> (\<forall>m\<in>set ms. snd m < p)"
proof
  assume "snd (rightmost ms) < p"
  then show "\<forall>m\<in>set ms. snd m < p" using rightmost_greatest[of _ ms] by fastforce
next
  assume "\<forall>m\<in>set ms. snd m < p"
  then show "snd (rightmost ms) < p" using rightmost_member[OF assms] by blast
qed

lemma heapSizeOf_not_sentinel: "heapSizeOf ms \<noteq> - 1"
  using heapSizeOf_nonneg[of ms] by linarith

text \<open>
  In the revision of \<^verbatim>\<open>jvm_param_parser.go\<close> a percentage greater than 0 always takes the
  heap size over, whatever size flags the input holds.
\<close>

lemma percentage_takes_over:
  "0 < JavaMaxHeapAsPercentage (parseJVMParamsFromString input) \<Longrightarrow>
     JavaMaxHeapSize (parseJVMParamsFromString input) = - 1"
  "0 < JavaInitialHeapAsPercentage (parseJVMParamsFromString input) \<Longrightarrow>
     JavaInitialHeapSize (parseJVMParamsFromString input) = - 1"
  by (simp_all add: parseJVMParamsFromString_def Let_def)

subsection \<open>Size flags in a text put together from two texts with a space between\<close>

lemma prefix_append_space:
  assumes "CHR '' '' \<notin> set lit"
  shows "prefix lit (r @ CHR '' '' # b) \<longleftrightarrow> prefix lit r"
proof
  assume "prefix lit (r @ CHR '' '' # b)"
  then consider "prefix lit r" | us where "lit = r @ us" "prefix us (CHR '' '' # b)"
    by (auto simp: prefix_append)
  then show "prefix lit r"
  proof cases
    case 1
    then show ?thesis .
  next
    case 2
    then show ?thesis using assms by (cases us) auto
  qed
next
  assume "prefix lit r"
  then show "prefix lit (r @ CHR '' '' # b)" by (simp add: prefix_append)
qed

lemma sizeValueAt_append_space: "sizeValueAt (r @ CHR '' '' # b) = sizeValueAt r"
proof -
  have d: "\<not> isDigit (CHR '' '')" by (simp add: isDigit_def)
  have t: "takeWhile isDigit (r @ CHR '' '' # b) = takeWhile isDigit r"
    using d by (simp add: takeWhile_tail)
  have w: "dropWhile isDigit (r @ CHR '' '' # b) = dropWhile isDigit r @ CHR '' '' # b"
    using d by (simp add: dropWhile_append3)
  show ?thesis
    unfolding sizeValueAt_def t w
    by (cases "dropWhile isDigit r") (simp_all add: Let_def del: dropWhile_eq_Nil_conv)
qed

lemma sizeFlagAt_append_space:
  assumes "CHR '' '' \<notin> set lit"
  shows "sizeFlagAt lit (r @ CHR '' '' # b) = sizeFlagAt lit r"
proof (cases "prefix lit r")
  case True
  then have "length lit \<le> length r" by (simp add: prefix_length_le)
  then have "drop (length lit) (r @ CHR '' '' # b) = drop (length lit) r @ CHR '' '' # b"
    by simp
  then show ?thesis
    using True prefix_append_space[OF assms, of r b]
    by (simp add: sizeFlagAt_def sizeValueAt_append_space)
next
  case False
  then show ?thesis using prefix_append_space[OF assms, of r b] by (simp add: sizeFlagAt_def)
qed

lemma scanSize_shift: "scanSize lit (i + k) s = map (apsnd (\<lambda>p. p + k)) (scanSize lit i s)"
proof (induction s arbitrary: i)
  case Nil
  show ?case by simp
next
  case (Cons c cs)
  have "scanSize lit (i + k + 1) cs = map (apsnd (\<lambda>p. p + k)) (scanSize lit (i + 1) cs)"
    using Cons.IH[of "i + 1"] by (simp add: ac_simps)
  then show ?case
    by (cases "reSpace c"; cases "sizeFlagAt lit cs") simp_all
qed

lemma scanSize_append_space:
  assumes "CHR '' '' \<notin> set lit"
  shows "scanSize lit i (a @ CHR '' '' # b) =
           scanSize lit i a
           @ (case sizeFlagAt lit b of Some v \<Rightarrow> [(v, i + int (length a))] | None \<Rightarrow> [])
           @ scanSize lit (i + int (length a) + 1) b"
proof (induction a arbitrary: i)
  case Nil
  show ?case by (simp add: reSpace_def split: option.split)
next
  case (Cons c cs)
  have e: "i + 1 + int (length cs) = i + int (length (c # cs))" by simp
  have "scanSize lit (i + 1) (cs @ CHR '' '' # b) =
           scanSize lit (i + 1) cs
           @ (case sizeFlagAt lit b of Some v \<Rightarrow> [(v, i + int (length (c # cs)))] | None \<Rightarrow> [])
           @ scanSize lit (i + int (length (c # cs)) + 1) b"
    using Cons.IH[of "i + 1"] unfolding e .
  then show ?case
    using sizeFlagAt_append_space[OF assms, of cs b] by simp
qed


lemma scanSize_at_0:
  assumes "(v, 0) \<in> set (scanSize lit 0 b)"
  shows "case b of [] \<Rightarrow> False | c # _ \<Rightarrow> reSpace c"
proof (cases b)
  case Nil
  then show ?thesis using assms by simp
next
  case (Cons c cs)
  have "(v, 0) \<notin> set (scanSize lit 1 cs)" using scanSize_pos[of "(v, 0)" lit 1 cs] by auto
  then have "reSpace c" using assms Cons by (cases "reSpace c") auto
  then show ?thesis using Cons by simp
qed

lemma sizeFlagAt_head:
  assumes "sizeFlagAt lit b = Some v" "lit \<noteq> []" "\<not> reSpace (hd lit)"
  shows "\<not> (case b of [] \<Rightarrow> False | c # _ \<Rightarrow> reSpace c)"
proof -
  have "prefix lit b" using assms(1) by (simp add: sizeFlagAt_def split: if_splits)
  then show ?thesis using assms(2,3) by (cases lit; cases b) auto
qed

lemma findAllSize_append_space:
  assumes "CHR '' '' \<notin> set lit" "lit \<noteq> []" "\<not> reSpace (hd lit)"
  shows "findAllSize lit (a @ CHR '' '' # b) =
           findAllSize lit a @ map (apsnd (offsetInBlob a b)) (findAllSize lit b)"
proof -
  have scan: "map (apsnd (offsetInBlob a b)) (scanSize lit 0 b) =
              scanSize lit (0 + int (length a) + 1) b"
  proof -
    have "offsetInBlob a b (snd m) = snd m + (int (length a) + 1)"
      if "m \<in> set (scanSize lit 0 b)" for m
    proof (cases "snd m = 0")
      case True
      then have "(fst m, 0) \<in> set (scanSize lit 0 b)" using that by (metis prod.collapse)
      from scanSize_at_0[OF this] show ?thesis by (simp add: offsetInBlob_def)
    next
      case False
      then show ?thesis by (simp add: offsetInBlob_def)
    qed
    then have "map (apsnd (offsetInBlob a b)) (scanSize lit 0 b) =
               map (apsnd (\<lambda>p. p + (int (length a) + 1))) (scanSize lit 0 b)"
      by (intro map_cong) (auto simp: apsnd_def map_prod_def split: prod.splits)
    also have "\<dots> = scanSize lit (0 + (int (length a) + 1)) b"
      by (rule scanSize_shift[symmetric])
    finally show ?thesis by (simp add: ac_simps)
  qed
  have hat: "map (apsnd (offsetInBlob a b)) (case sizeFlagAt lit b of Some v \<Rightarrow> [(v, 0)] | None \<Rightarrow> []) =
             (case sizeFlagAt lit b of Some v \<Rightarrow> [(v, 0 + int (length a))] | None \<Rightarrow> [])"
    using sizeFlagAt_head[OF _ assms(2,3), of b]
    by (cases "sizeFlagAt lit b") (auto simp: offsetInBlob_def)
  show ?thesis
    unfolding findAllSize_def
    by (simp only: scanSize_append_space[OF assms(1)] sizeFlagAt_append_space[OF assms(1)]
        map_append hat scan append_assoc)
qed

lemma findAllSize_below:
  assumes "m \<in> set (findAllSize lit a)"
  shows "snd m < int (length a)"
proof -
  consider v where "sizeFlagAt lit a = Some v" "m = (v, 0)" | "m \<in> set (scanSize lit 0 a)"
    using assms by (cases "sizeFlagAt lit a") (auto simp: findAllSize_def)
  then show ?thesis
  proof cases
    case 1
    then have "a \<noteq> []" by (auto simp: sizeFlagAt_def sizeValueAt_def split: if_splits)
    then show ?thesis using 1 by simp
  next
    case 2
    then show ?thesis using scanSize_pos[of m lit 0 a] by simp
  qed
qed

lemma offsetInBlob_ge: "0 \<le> p \<Longrightarrow> int (length a) \<le> offsetInBlob a b p"
  by (simp add: offsetInBlob_def)

lemma offsetInBlob_mono:
  "0 \<le> p \<Longrightarrow> 0 \<le> q \<Longrightarrow> offsetInBlob a b p < offsetInBlob a b q \<longleftrightarrow> p < q"
  by (auto simp: offsetInBlob_def)


subsection \<open>The rightmost loop over matches of two texts\<close>

lemma rightmostStep_cases: "rightmostStep a m = a \<or> rightmostStep a m = m"
  by (simp add: rightmostStep_def)

lemma foldl_rightmostStep_skip_small:
  "k \<le> snd b \<Longrightarrow>
   foldl rightmostStep b ms = foldl rightmostStep b (filter (\<lambda>x. k \<le> snd x) ms)"
proof (induction ms arbitrary: b)
  case Nil
  show ?case by simp
next
  case (Cons m ms)
  show ?case
  proof (cases "k \<le> snd m")
    case True
    then have "k \<le> snd (rightmostStep b m)"
      using Cons.prems by (simp add: rightmostStep_def)
    from Cons.IH[OF this] True show ?thesis by simp
  next
    case False
    then have "rightmostStep b m = b" using Cons.prems by (simp add: rightmostStep_def)
    then show ?thesis using Cons.IH[OF Cons.prems] False by simp
  qed
qed

lemma foldl_rightmostStep_small_init:
  assumes "ms \<noteq> []" "\<forall>m\<in>set ms. k \<le> snd m" "snd a < k" "snd a' < k"
  shows "foldl rightmostStep a ms = foldl rightmostStep a' ms"
proof (cases ms)
  case Nil
  then show ?thesis using assms(1) by simp
next
  case (Cons m ms')
  then have "k \<le> snd m" using assms(2) by simp
  then have "rightmostStep a m = m" "rightmostStep a' m = m"
    using assms(3,4) by (simp_all add: rightmostStep_def)
  then show ?thesis using Cons by simp
qed

lemma foldl_rightmostStep_filter:
  "snd a < k \<Longrightarrow> filter (\<lambda>x. k \<le> snd x) ms \<noteq> [] \<Longrightarrow>
   foldl rightmostStep a ms = foldl rightmostStep a (filter (\<lambda>x. k \<le> snd x) ms)"
proof (induction ms arbitrary: a)
  case Nil
  then show ?case by simp
next
  case (Cons m ms)
  show ?case
  proof (cases "k \<le> snd m")
    case True
    then have "rightmostStep a m = m" using Cons.prems(1) by (simp add: rightmostStep_def)
    then show ?thesis
      using foldl_rightmostStep_skip_small[OF True, of ms] True by simp
  next
    case False
    then have s: "snd (rightmostStep a m) < k"
      using Cons.prems(1) rightmostStep_cases[of a m] by auto
    have ne: "filter (\<lambda>x. k \<le> snd x) ms \<noteq> []" using Cons.prems(2) False by simp
    have "foldl rightmostStep (rightmostStep a m) ms =
          foldl rightmostStep (rightmostStep a m) (filter (\<lambda>x. k \<le> snd x) ms)"
      by (rule Cons.IH[OF s ne])
    also have "\<dots> = foldl rightmostStep a (filter (\<lambda>x. k \<le> snd x) ms)"
      by (rule foldl_rightmostStep_small_init[OF ne _ s Cons.prems(1)]) simp
    finally show ?thesis using False by simp
  qed
qed

lemma foldl_rightmostStep_map:
  assumes "\<And>p q. 0 \<le> p \<Longrightarrow> 0 \<le> q \<Longrightarrow> f p < f q \<longleftrightarrow> p < q"
  shows "0 \<le> snd a \<Longrightarrow> \<forall>m\<in>set ms. 0 \<le> snd m \<Longrightarrow>
         foldl rightmostStep (apsnd f a) (map (apsnd f) ms) = apsnd f (foldl rightmostStep a ms)"
proof (induction ms arbitrary: a)
  case Nil
  show ?case by simp
next
  case (Cons m ms)
  have m: "0 \<le> snd m" using Cons.prems(2) by simp
  have "rightmostStep (apsnd f a) (apsnd f m) = apsnd f (rightmostStep a m)"
    using assms[OF Cons.prems(1) m] by (simp add: rightmostStep_def)
  moreover have "0 \<le> snd (rightmostStep a m)"
    using Cons.prems(1) m rightmostStep_cases[of a m] by auto
  ultimately show ?case using Cons.IH[of "rightmostStep a m"] Cons.prems(2) by simp
qed

lemma rightmost_map:
  assumes "\<And>p q. 0 \<le> p \<Longrightarrow> 0 \<le> q \<Longrightarrow> f p < f q \<longleftrightarrow> p < q"
    and "\<And>p. 0 \<le> p \<Longrightarrow> 0 \<le> f p"
    and "ms \<noteq> []" "\<forall>m\<in>set ms. 0 \<le> snd m"
  shows "rightmost (map (apsnd f) ms) = apsnd f (rightmost ms)"
proof (cases ms)
  case Nil
  then show ?thesis using assms(3) by simp
next
  case (Cons m ms')
  have m: "0 \<le> snd m" using assms(4) Cons by simp
  then have 1: "rightmostStep ([], - 1) m = m" by (simp add: rightmostStep_def)
  have 2: "rightmostStep ([], - 1) (apsnd f m) = apsnd f m"
    using assms(2)[OF m] by (simp add: rightmostStep_def)
  show ?thesis
    using foldl_rightmostStep_map[of f m ms', OF assms(1) m] assms(4) Cons
    by (simp add: rightmost_def 1 2)
qed

lemma rightmost_pooled_blob:
  assumes l1: "CHR '' '' \<notin> set l1" "l1 \<noteq> []" "\<not> reSpace (hd l1)"
    and l2: "CHR '' '' \<notin> set l2" "l2 \<noteq> []" "\<not> reSpace (hd l2)"
    and ne: "findAllSize l1 b @ findAllSize l2 b \<noteq> []"
  shows "rightmost (findAllSize l1 (a @ CHR '' '' # b) @ findAllSize l2 (a @ CHR '' '' # b)) =
         apsnd (offsetInBlob a b) (rightmost (findAllSize l1 b @ findAllSize l2 b))"
proof -
  let ?k = "int (length a)"
  let ?f = "apsnd (offsetInBlob a b)"
  let ?big = "\<lambda>x::string \<times> int. ?k \<le> snd x"
  let ?B = "findAllSize l1 b @ findAllSize l2 b"
  have pos: "\<forall>m\<in>set ?B. 0 \<le> snd m" by (auto dest: findAllSize_pos)
  have small: "filter ?big (findAllSize l a) = []" for l
  proof -
    have "\<not> ?k \<le> snd m" if "m \<in> set (findAllSize l a)" for m
      using findAllSize_below[OF that] by simp
    then show ?thesis by (simp add: filter_empty_conv)
  qed
  have big: "filter ?big (map ?f (findAllSize l b)) = map ?f (findAllSize l b)" for l
  proof -
    have "?k \<le> snd (?f m)" if "m \<in> set (findAllSize l b)" for m
      using offsetInBlob_ge[OF findAllSize_pos[OF that], of a b] by (cases m) simp
    then show ?thesis by (simp add: filter_id_conv)
  qed
  have f: "filter ?big (findAllSize l1 (a @ CHR '' '' # b) @ findAllSize l2 (a @ CHR '' '' # b)) =
           map ?f ?B"
    by (simp add: findAllSize_append_space[OF l1] findAllSize_append_space[OF l2] small big)
  have "rightmost (findAllSize l1 (a @ CHR '' '' # b) @ findAllSize l2 (a @ CHR '' '' # b)) =
        rightmost (map ?f ?B)"
    unfolding rightmost_def
    using foldl_rightmostStep_filter[of "([], - 1)" ?k
        "findAllSize l1 (a @ CHR '' '' # b) @ findAllSize l2 (a @ CHR '' '' # b)"] ne
    unfolding f by simp
  also have "\<dots> = ?f (rightmost ?B)"
    by (rule rightmost_map[OF offsetInBlob_mono offsetInBlob_ge[THEN order_trans[OF of_nat_0_le_iff]] ne pos])
  finally show ?thesis .
qed

subsection \<open>The text \<open>parseJVMParams\<close> puts together\<close>

lemma Join_snoc: "ys \<noteq> [] \<Longrightarrow> Join (ys @ [x]) sep = Join ys sep @ sep @ x"
  by (induction ys sep rule: Join.induct) simp_all

lemma Join_empty_iff: "\<forall>y\<in>set ys. y \<noteq> [] \<Longrightarrow> Join ys sep = [] \<longleftrightarrow> ys = []"
  by (induction ys sep rule: Join.induct) simp_all

lemma appendArg_Join:
  "\<forall>y\<in>set ys. y \<noteq> [] \<Longrightarrow> appendArg (Join ys '' '') x = Join (ys @ [x]) '' ''"
  using Join_snoc[of ys x "'' ''"] Join_empty_iff[of ys "'' ''"]
  by (cases "ys = []") (simp_all add: appendArg_def)

lemma foldl_env_Join:
  "\<forall>y\<in>set ys. y \<noteq> [] \<Longrightarrow>
   foldl (\<lambda>b envVar. case env envVar of
                       Some x \<Rightarrow> if x \<noteq> [] then appendArg b x else b
                     | None \<Rightarrow> b) (Join ys '' '') vs =
   Join (ys @ filter (\<lambda>s. s \<noteq> []) (map (envValue env) vs)) '' ''"
proof (induction vs arbitrary: ys)
  case Nil
  show ?case by simp
next
  case (Cons v vs)
  show ?case
  proof (cases "envValue env v = []")
    case True
    then show ?thesis using Cons.IH[OF Cons.prems]
      by (auto simp: envValue_def split: option.splits)
  next
    case False
    then obtain x where x: "env v = Some x" "x \<noteq> []"
      by (auto simp: envValue_def split: option.splits)
    have "\<forall>y\<in>set (ys @ [x]). y \<noteq> []" using Cons.prems x by simp
    from Cons.IH[OF this] show ?thesis
      using x appendArg_Join[OF Cons.prems, of x] by (simp add: envValue_def)
  qed
qed

lemma combinedArgs_Join:
  "combinedArgs cmdline env =
     Join (filter (\<lambda>s. s \<noteq> []) (map (envValue env) envVars @ [cmdline])) '' ''"
proof -
  let ?ys = "filter (\<lambda>s. s \<noteq> []) (map (envValue env) envVars)"
  have e: "foldl (\<lambda>b envVar. case env envVar of
                       Some x \<Rightarrow> if x \<noteq> [] then appendArg b x else b
                     | None \<Rightarrow> b) [] envVars = Join ?ys '' ''"
    using foldl_env_Join[of "[]" env envVars] by simp
  have ne: "\<forall>y\<in>set ?ys. y \<noteq> []" by simp
  show ?thesis
    unfolding combinedArgs_def e Let_def
    using appendArg_Join[OF ne, of cmdline] by simp
qed

lemma combinedArgs_cases:
  "combinedArgs cmdline env =
     (if cmdline = [] then combinedArgs [] env
      else if combinedArgs [] env = [] then cmdline
      else combinedArgs [] env @ CHR '' '' # cmdline)"
proof -
  let ?ys = "filter (\<lambda>s. s \<noteq> []) (map (envValue env) envVars)"
  have ne: "\<forall>y\<in>set ?ys. y \<noteq> []" by simp
  have e: "combinedArgs [] env = Join ?ys '' ''" by (simp add: combinedArgs_Join)
  show ?thesis
  proof (cases "cmdline = []")
    case True
    then show ?thesis by simp
  next
    case False
    then have "combinedArgs cmdline env = Join (?ys @ [cmdline]) '' ''"
      by (simp add: combinedArgs_Join)
    then show ?thesis
      using False Join_snoc[of ?ys cmdline "'' ''"] Join_empty_iff[OF ne, of "'' ''"]
      by (cases "?ys = []") (simp_all add: e)
  qed
qed

lemma findAllSize_Nil: "findAllSize lit [] = []"
  by (simp add: findAllSize_def sizeFlagAt_def sizeValueAt_def)

lemma heapSizeOf_cong:
  "fst (rightmost ms) = fst (rightmost ms') \<Longrightarrow> ms \<noteq> [] \<Longrightarrow> ms' \<noteq> [] \<Longrightarrow>
   heapSizeOf ms = heapSizeOf ms'"
  by (simp add: heapSizeOf_def)

lemma pooled_blob_winner:
  assumes l1: "CHR '' '' \<notin> set l1" "l1 \<noteq> []" "\<not> reSpace (hd l1)"
    and l2: "CHR '' '' \<notin> set l2" "l2 \<noteq> []" "\<not> reSpace (hd l2)"
    and ne: "findAllSize l1 cmdline @ findAllSize l2 cmdline \<noteq> []"
  shows "fst (rightmost (findAllSize l1 (combinedArgs cmdline env) @ findAllSize l2 (combinedArgs cmdline env))) =
           fst (rightmost (findAllSize l1 cmdline @ findAllSize l2 cmdline))"
    and "findAllSize l1 (combinedArgs cmdline env) @ findAllSize l2 (combinedArgs cmdline env) \<noteq> []"
    and "\<forall>m\<in>set (findAllSize l1 (combinedArgs [] env) @ findAllSize l2 (combinedArgs [] env)).
           snd m < snd (rightmost (findAllSize l1 (combinedArgs cmdline env) @ findAllSize l2 (combinedArgs cmdline env)))"
proof -
  let ?E = "combinedArgs [] env"
  let ?B = "findAllSize l1 cmdline @ findAllSize l2 cmdline"
  have c: "cmdline \<noteq> []" using ne by (auto simp: findAllSize_Nil)
  have posB: "\<forall>m\<in>set ?B. 0 \<le> snd m" by (auto dest: findAllSize_pos)
  have memB: "rightmost ?B \<in> set ?B" by (rule rightmost_member[OF ne posB])
  show "fst (rightmost (findAllSize l1 (combinedArgs cmdline env) @ findAllSize l2 (combinedArgs cmdline env))) = fst (rightmost ?B)"
  proof (cases "?E = []")
    case True
    then show ?thesis using c combinedArgs_cases[of cmdline env] by simp
  next
    case False
    then have "combinedArgs cmdline env = ?E @ CHR '' '' # cmdline"
      using c combinedArgs_cases[of cmdline env] by simp
    then show ?thesis using rightmost_pooled_blob[OF l1 l2 ne, of ?E] by simp
  qed
  show "findAllSize l1 (combinedArgs cmdline env) @ findAllSize l2 (combinedArgs cmdline env) \<noteq> []"
  proof (cases "?E = []")
    case True
    then show ?thesis using c ne combinedArgs_cases[of cmdline env] by simp
  next
    case False
    then have "combinedArgs cmdline env = ?E @ CHR '' '' # cmdline"
      using c combinedArgs_cases[of cmdline env] by simp
    then show ?thesis
      using ne findAllSize_append_space[OF l1, of ?E cmdline]
        findAllSize_append_space[OF l2, of ?E cmdline] by auto
  qed
  show "\<forall>m\<in>set (findAllSize l1 ?E @ findAllSize l2 ?E).
           snd m < snd (rightmost (findAllSize l1 (combinedArgs cmdline env) @ findAllSize l2 (combinedArgs cmdline env)))"
  proof (cases "?E = []")
    case True
    then show ?thesis by (simp add: findAllSize_Nil)
  next
    case False
    then have "combinedArgs cmdline env = ?E @ CHR '' '' # cmdline"
      using c combinedArgs_cases[of cmdline env] by simp
    then have "snd (rightmost (findAllSize l1 (combinedArgs cmdline env) @ findAllSize l2 (combinedArgs cmdline env))) =
               offsetInBlob ?E cmdline (snd (rightmost ?B))"
      using rightmost_pooled_blob[OF l1 l2 ne, of ?E] by simp
    moreover have "0 \<le> snd (rightmost ?B)" using memB posB by blast
    ultimately have "int (length ?E) \<le> snd (rightmost (findAllSize l1 (combinedArgs cmdline env) @ findAllSize l2 (combinedArgs cmdline env)))"
      using offsetInBlob_ge[of "snd (rightmost ?B)" ?E cmdline] by simp
    moreover have "snd m < int (length ?E)" if "m \<in> set (findAllSize l1 ?E @ findAllSize l2 ?E)" for m
      using that findAllSize_below[of m _ ?E] by auto
    ultimately show ?thesis by fastforce
  qed
qed

lemma blob_without_cmdline_matches:
  assumes l: "CHR '' '' \<notin> set lit" "lit \<noteq> []" "\<not> reSpace (hd lit)"
    and none: "findAllSize lit cmdline = []"
  shows "findAllSize lit (combinedArgs cmdline env) = findAllSize lit (combinedArgs [] env)"
proof -
  consider "cmdline = []" | "cmdline \<noteq> []" "combinedArgs [] env = []"
    | "cmdline \<noteq> []" "combinedArgs [] env \<noteq> []" by blast
  then show ?thesis
  proof cases
    case 1
    then show ?thesis by simp
  next
    case 2
    then show ?thesis using none combinedArgs_cases[of cmdline env] by (simp add: findAllSize_Nil)
  next
    case 3
    then have "combinedArgs cmdline env = combinedArgs [] env @ CHR '' '' # cmdline"
      using combinedArgs_cases[of cmdline env] by simp
    then show ?thesis using findAllSize_append_space[OF l, of "combinedArgs [] env" cmdline] none
      by simp
  qed
qed

lemma size_literals:
  "CHR '' '' \<notin> set ''-Xmx''" "''-Xmx'' \<noteq> []" "\<not> reSpace (hd ''-Xmx'')"
  "CHR '' '' \<notin> set ''-XX:MaxHeapSize=''" "''-XX:MaxHeapSize='' \<noteq> []"
  "\<not> reSpace (hd ''-XX:MaxHeapSize='')"
  "CHR '' '' \<notin> set ''-Xms''" "''-Xms'' \<noteq> []" "\<not> reSpace (hd ''-Xms'')"
  "CHR '' '' \<notin> set ''-XX:MinHeapSize=''" "''-XX:MinHeapSize='' \<noteq> []"
  "\<not> reSpace (hd ''-XX:MinHeapSize='')"
  by (simp_all add: reSpace_def)

section \<open>Facts about the vendor-aware parser\<close>

subsection \<open>The two loops of the classifier\<close>

lemma gcFlags_nonempty_types: "gc \<in> set gcFlags \<Longrightarrow> snd gc \<noteq> []"
  by (auto simp: gcFlags_def)

lemma foldl_detect_table:
  "foldl (\<lambda>d gc. if Contains flag (fst gc) then snd gc else d) d tab =
     (case map snd (filter (\<lambda>gc. Contains flag (fst gc)) tab) of [] \<Rightarrow> d | h # t \<Rightarrow> last (h # t))"
  by (induction tab arbitrary: d) (auto split: list.splits)

lemma detectInFlag_hits:
  "detectInFlag d flag =
     (if explicitEnables [flag] = [] then d else last (explicitEnables [flag]))"
  by (simp add: detectInFlag_def explicitEnables_def foldl_detect_table split: list.splits)

lemma explicitEnables_Cons:
  "explicitEnables (flag # flags) = explicitEnables [flag] @ explicitEnables flags"
  by (simp add: explicitEnables_def)

lemma foldl_detectInFlag:
  "foldl detectInFlag d flags =
     (if explicitEnables flags = [] then d else last (explicitEnables flags))"
proof (induction flags arbitrary: d)
  case Nil
  show ?case by (simp add: explicitEnables_def)
next
  case (Cons flag flags)
  show ?case
    unfolding foldl_Cons Cons.IH explicitEnables_Cons[of flag flags]
    by (simp add: detectInFlag_hits)
qed

lemma explicitEnables_nonempty_types: "g \<in> set (explicitEnables flags) \<Longrightarrow> g \<noteq> []"
  by (auto simp: explicitEnables_def dest: gcFlags_nonempty_types)

lemma inferFromFlags_Cons:
  "inferFromFlags (f # fs) = (case categoryOf f of Some g \<Rightarrow> Some g | None \<Rightarrow> inferFromFlags fs)"
  by (simp add: categoryOf_def)

lemma filter_head: "filter P xs = y # ys \<Longrightarrow> P y"
proof -
  assume "filter P xs = y # ys"
  then have "y \<in> set (filter P xs)" by simp
  then show "P y" by simp
qed

lemma inferFromFlags_first:
  "inferFromFlags flags =
     (case filter (\<lambda>f. categoryOf f \<noteq> None) flags of [] \<Rightarrow> None | f # _ \<Rightarrow> categoryOf f)"
proof (induction flags)
  case Nil
  show ?case by simp
next
  case (Cons f fs)
  show ?case
    unfolding inferFromFlags_Cons Cons.IH by (cases "categoryOf f") simp_all
qed

lemma parseHotSpotGCType_scan:
  "parseHotSpotGCType flags =
     (if explicitEnables flags \<noteq> [] then last (explicitEnables flags)
      else case filter (\<lambda>f. categoryOf f \<noteq> None) flags of
             [] \<Rightarrow> ''Unknown'' | f # _ \<Rightarrow> the (categoryOf f))"
proof (cases "explicitEnables flags = []")
  case True
  show ?thesis
  proof (cases "filter (\<lambda>f. categoryOf f \<noteq> None) flags")
    case Nil
    then show ?thesis using True
      by (simp add: parseHotSpotGCType_def foldl_detectInFlag inferFromFlags_first Let_def)
  next
    case (Cons f fs)
    then obtain g where "categoryOf f = Some g" using filter_head[OF Cons] by auto
    then show ?thesis using True Cons
      by (simp add: parseHotSpotGCType_def foldl_detectInFlag inferFromFlags_first Let_def)
  qed
next
  case False
  then have "last (explicitEnables flags) \<noteq> []"
    using explicitEnables_nonempty_types[of "last (explicitEnables flags)" flags] by simp
  then show ?thesis using False
    by (simp add: parseHotSpotGCType_def foldl_detectInFlag Let_def)
qed

lemma parseGCType_d_eq: "parseGCType_d flags = parseHotSpotGCType flags"
  by (simp add: parseGCType_d_def parseHotSpotGCType_def)

subsection \<open>The command line pass\<close>










section \<open>Facts about the flag dump parser with fractions\<close>

lemma plainChars_ok:
  "list_all (\<lambda>c. \<not> reSpace c \<and> c \<noteq> CHR ''=''
                 \<and> list_all (\<lambda>w. w \<noteq> [] \<and> hd w \<noteq> c \<and> last w \<noteq> c) unicodeSpaces)
            plainChars"
  by code_simp

lemma dash_ok: "list_all (\<lambda>w. w \<noteq> [] \<and> hd w \<noteq> CHR ''-'') unicodeSpaces"
  by code_simp

lemma spaceLen_0:
  assumes "list_all (\<lambda>w. w \<noteq> [] \<and> hd w \<noteq> c) unicodeSpaces"
  shows "spaceLen (c # cs) = 0"
proof -
  have "\<not> prefix w (c # cs)" if "w \<in> set unicodeSpaces" for w
  proof -
    have w: "w \<noteq> []" "hd w \<noteq> c" using that assms by (auto simp: list_all_iff)
    then obtain h t where "w = h # t" by (cases w) auto
    then show ?thesis using w by simp
  qed
  then have "filter (\<lambda>w. prefix w (c # cs)) unicodeSpaces = []"
    by (simp add: filter_empty_conv)
  then show ?thesis by (simp add: spaceLen_def)
qed

lemma spaceLenRev_0:
  assumes "list_all (\<lambda>w. w \<noteq> [] \<and> last w \<noteq> c) unicodeSpaces"
  shows "spaceLenRev (c # cs) = 0"
proof -
  have "\<not> prefix (rev w) (c # cs)" if "w \<in> set unicodeSpaces" for w
  proof -
    have w: "w \<noteq> []" "last w \<noteq> c" using that assms by (auto simp: list_all_iff)
    then obtain ys y where "w = ys @ [y]" by (cases w rule: rev_cases) auto
    then show ?thesis using w by simp
  qed
  then have "filter (\<lambda>w. prefix (rev w) (c # cs)) unicodeSpaces = []"
    by (simp add: filter_empty_conv)
  then show ?thesis by (simp add: spaceLenRev_def)
qed

lemma plain_char:
  assumes "c \<in> set plainChars"
  shows "\<not> reSpace c" "c \<noteq> CHR ''=''"
    "list_all (\<lambda>w. w \<noteq> [] \<and> last w \<noteq> c) unicodeSpaces"
  using assms plainChars_ok by (auto simp: list_all_iff)

lemma TrimSpace_flag:
  assumes "plainValue v"
  shows "TrimSpace (CHR ''-'' # l @ v) = CHR ''-'' # l @ v"
proof -
  obtain ys y where v: "v = ys @ [y]"
    using assms by (cases v rule: rev_cases) (auto simp: plainValue_def)
  then have y: "y \<in> set plainChars" using assms by (auto simp: plainValue_def)
  have d: "list_all (\<lambda>w. w \<noteq> [] \<and> hd w \<noteq> CHR ''-'') unicodeSpaces" by (rule dash_ok)
  have l: "trimLeftFrom 0 (CHR ''-'' # l @ v) = CHR ''-'' # l @ v"
    by (simp add: spaceLen_0[OF d])
  have r: "rev (CHR ''-'' # l @ v) = y # rev ys @ rev l @ [CHR ''-'']" by (simp add: v)
  have "trimRevFrom 0 (y # rev ys @ rev l @ [CHR ''-'']) = y # rev ys @ rev l @ [CHR ''-'']"
    using spaceLenRev_0[OF plain_char(3)[OF y]] by simp
  then show ?thesis unfolding TrimSpace_def l r by (simp add: v)
qed

lemma Contains_set: "Contains s pat \<Longrightarrow> set pat \<subseteq> set s"
proof (induction s)
  case Nil
  then show ?case by simp
next
  case (Cons c s)
  from Cons.prems consider "prefix pat (c # s)" | "Contains s pat" by auto
  then show ?case
  proof cases
    case 1
    then show ?thesis by (rule set_mono_prefix)
  next
    case 2
    then show ?thesis using Cons.IH by auto
  qed
qed

lemma Contains_append_value:
  assumes "pat \<noteq> []" "last pat \<notin> set w"
  shows "Contains (s @ w) pat \<longleftrightarrow> Contains s pat"
proof (induction s)
  case Nil
  have "last pat \<in> set pat" using assms(1) by simp
  then have "\<not> Contains w pat" using Contains_set[of w pat] assms(2) by blast
  then show ?case using assms(1) by simp
next
  case (Cons c s)
  have "prefix pat ((c # s) @ w) \<longleftrightarrow> prefix pat (c # s)"
  proof
    assume "prefix pat ((c # s) @ w)"
    then consider "prefix pat (c # s)" | us where "pat = (c # s) @ us" "prefix us w"
      unfolding prefix_append[of pat "c # s" w] by blast
    then show "prefix pat (c # s)"
    proof cases
      case 1
      then show ?thesis .
    next
      case 2
      show ?thesis
      proof (cases "us = []")
        case True
        then show ?thesis using 2 by simp
      next
        case False
        then have "last pat = last us" using 2 by simp
        moreover have "last us \<in> set w" using False 2(2) set_mono_prefix[of us w] by auto
        ultimately show ?thesis using assms(2) by simp
      qed
    qed
  next
    assume "prefix pat (c # s)"
    then show "prefix pat ((c # s) @ w)" unfolding prefix_append[of pat "c # s" w] by blast
  qed
  then show ?case using Cons.IH by simp
qed

lemma extractAfter_value:
  assumes "lit \<noteq> []" "w \<noteq> []" "\<forall>c\<in>set w. \<not> reSpace c"
  shows "extractAfter lit (lit @ w) = w"
proof -
  obtain c l where lit: "lit = c # l" using assms(1) by (cases lit) auto
  have t: "takeWhile (\<lambda>x. \<not> reSpace x) w = w"
    using assms(3) by (simp add: takeWhile_eq_all_conv)
  show ?thesis unfolding lit by (simp add: t assms(2))
qed

lemma plainValue_facts:
  assumes "plainValue v"
  shows "v \<noteq> []" "\<forall>c\<in>set v. \<not> reSpace c" "CHR ''='' \<notin> set v"
  using assms plain_char(1,2) by (auto simp: plainValue_def)

lemma plainValue_no_pattern:
  assumes "plainValue v" "pat \<noteq> []" "last pat = CHR ''=''"
  shows "\<not> Contains v pat"
proof
  assume "Contains v pat"
  then have "set pat \<subseteq> set v" by (rule Contains_set)
  moreover have "last pat \<in> set pat" using assms(2) by simp
  ultimately show False using assms(3) plainValue_facts(3)[OF assms(1)] by auto
qed

lemma plainValue_patterns:
  assumes "plainValue v"
  shows "\<not> Contains v ''MaxHeapSize=''" "\<not> Contains v ''MinHeapSize=''"
    "\<not> Contains v ''InitialHeapSize=''" "\<not> Contains v ''MaxRAMPercentage=''"
    "\<not> Contains v ''InitialRAMPercentage=''" "\<not> Contains v ''MinRAMPercentage=''"
    "\<not> Contains v ''MaxRAMFraction=''" "\<not> Contains v ''InitialRAMFraction=''"
    "\<not> Contains v ''MinRAMFraction=''"
  by (rule plainValue_no_pattern[OF assms]; simp)+

lemma plainValue_takeWhile:
  "plainValue v \<Longrightarrow> takeWhile (\<lambda>x. \<not> reSpace x) v = v"
  using plainValue_facts(2) by (simp add: takeWhile_eq_all_conv)

lemma TrimSpace_literal:
  assumes "plainValue v" "L \<noteq> []" "hd L = CHR ''-''"
  shows "TrimSpace (L @ v) = L @ v"
proof -
  obtain l where "L = CHR ''-'' # l" using assms(2,3) by (cases L) auto
  then show ?thesis using TrimSpace_flag[OF assms(1), of l] by simp
qed

lemma vmFlag_d_branch:
  assumes "TrimSpace f = flag" "flag \<noteq> []" "HasPrefix flag ''-XX:''"
    and "\<not> Contains flag ''MaxHeapSize=''" "\<not> Contains flag ''MinHeapSize=''"
    and "\<not> Contains flag ''InitialHeapSize=''"
  shows "Contains flag ''MaxRAMPercentage='' \<Longrightarrow> extractFlagValue flag ''MaxRAMPercentage'' = v
           \<Longrightarrow> v \<noteq> [] \<Longrightarrow> vmFlag_d ops p f = p\<lparr>JavaMaxHeapAsPercentage_d := v\<rparr>"
    and "\<not> Contains flag ''MaxRAMPercentage='' \<Longrightarrow> Contains flag ''InitialRAMPercentage=''
           \<Longrightarrow> extractFlagValue flag ''InitialRAMPercentage'' = v \<Longrightarrow> v \<noteq> []
           \<Longrightarrow> vmFlag_d ops p f = p\<lparr>JavaInitialHeapAsPercentage_d := v\<rparr>"
    and "\<not> Contains flag ''MaxRAMPercentage='' \<Longrightarrow> \<not> Contains flag ''InitialRAMPercentage=''
           \<Longrightarrow> Contains flag ''MinRAMPercentage=''
           \<Longrightarrow> extractFlagValue flag ''MinRAMPercentage'' = v \<Longrightarrow> v \<noteq> []
           \<Longrightarrow> vmFlag_d ops p f = p\<lparr>MinRAMPercentage_d := v\<rparr>"
    and "\<not> Contains flag ''MaxRAMPercentage='' \<Longrightarrow> \<not> Contains flag ''InitialRAMPercentage=''
           \<Longrightarrow> \<not> Contains flag ''MinRAMPercentage='' \<Longrightarrow> Contains flag ''MaxRAMFraction=''
           \<Longrightarrow> extractFlagValue flag ''MaxRAMFraction'' = v
           \<Longrightarrow> vmFlag_d ops p f =
                 (if JavaMaxHeapAsPercentage_d p = []
                  then (case fractionAsPercentage ops v of
                          Some s \<Rightarrow> p\<lparr>JavaMaxHeapAsPercentage_d := s\<rparr> | None \<Rightarrow> p)
                  else p)"
    and "\<not> Contains flag ''MaxRAMPercentage='' \<Longrightarrow> \<not> Contains flag ''InitialRAMPercentage=''
           \<Longrightarrow> \<not> Contains flag ''MinRAMPercentage='' \<Longrightarrow> \<not> Contains flag ''MaxRAMFraction=''
           \<Longrightarrow> Contains flag ''InitialRAMFraction=''
           \<Longrightarrow> extractFlagValue flag ''InitialRAMFraction'' = v
           \<Longrightarrow> vmFlag_d ops p f =
                 (if JavaInitialHeapAsPercentage_d p = []
                  then (case fractionAsPercentage ops v of
                          Some s \<Rightarrow> p\<lparr>JavaInitialHeapAsPercentage_d := s\<rparr> | None \<Rightarrow> p)
                  else p)"
    and "\<not> Contains flag ''MaxRAMPercentage='' \<Longrightarrow> \<not> Contains flag ''InitialRAMPercentage=''
           \<Longrightarrow> \<not> Contains flag ''MinRAMPercentage='' \<Longrightarrow> \<not> Contains flag ''MaxRAMFraction=''
           \<Longrightarrow> \<not> Contains flag ''InitialRAMFraction='' \<Longrightarrow> Contains flag ''MinRAMFraction=''
           \<Longrightarrow> extractFlagValue flag ''MinRAMFraction'' = v
           \<Longrightarrow> vmFlag_d ops p f =
                 (if MinRAMPercentage_d p = []
                  then (case fractionAsPercentage ops v of
                          Some s \<Rightarrow> p\<lparr>MinRAMPercentage_d := s\<rparr> | None \<Rightarrow> p)
                  else p)"
  by (simp_all add: vmFlag_d_def Let_def assms)

lemma percentage_flag_step:
  assumes "plainValue v"
  shows "vmFlag_d ops p (''-XX:MaxRAMPercentage='' @ v) = p\<lparr>JavaMaxHeapAsPercentage_d := v\<rparr>"
    and "vmFlag_d ops p (''-XX:InitialRAMPercentage='' @ v) =
           p\<lparr>JavaInitialHeapAsPercentage_d := v\<rparr>"
    and "vmFlag_d ops p (''-XX:MinRAMPercentage='' @ v) = p\<lparr>MinRAMPercentage_d := v\<rparr>"
proof -
  note n = plainValue_patterns[OF assms] plainValue_takeWhile[OF assms]
    plainValue_facts(1)[OF assms]
  show "vmFlag_d ops p (''-XX:MaxRAMPercentage='' @ v) = p\<lparr>JavaMaxHeapAsPercentage_d := v\<rparr>"
    by (rule vmFlag_d_branch(1)[OF TrimSpace_literal[OF assms, of "''-XX:MaxRAMPercentage=''"]])
       (simp_all add: HasPrefix_def extractFlagValue_def n)
  show "vmFlag_d ops p (''-XX:InitialRAMPercentage='' @ v) =
           p\<lparr>JavaInitialHeapAsPercentage_d := v\<rparr>"
    by (rule vmFlag_d_branch(2)[OF TrimSpace_literal[OF assms, of "''-XX:InitialRAMPercentage=''"]])
       (simp_all add: HasPrefix_def extractFlagValue_def n)
  show "vmFlag_d ops p (''-XX:MinRAMPercentage='' @ v) = p\<lparr>MinRAMPercentage_d := v\<rparr>"
    by (rule vmFlag_d_branch(3)[OF TrimSpace_literal[OF assms, of "''-XX:MinRAMPercentage=''"]])
       (simp_all add: HasPrefix_def extractFlagValue_def n)
qed

lemma fraction_flag_step:
  assumes "plainValue v"
  shows "vmFlag_d ops p (''-XX:MaxRAMFraction='' @ v) =
           (if JavaMaxHeapAsPercentage_d p = []
            then (case fractionAsPercentage ops v of
                    Some s \<Rightarrow> p\<lparr>JavaMaxHeapAsPercentage_d := s\<rparr> | None \<Rightarrow> p)
            else p)"
    and "vmFlag_d ops p (''-XX:InitialRAMFraction='' @ v) =
           (if JavaInitialHeapAsPercentage_d p = []
            then (case fractionAsPercentage ops v of
                    Some s \<Rightarrow> p\<lparr>JavaInitialHeapAsPercentage_d := s\<rparr> | None \<Rightarrow> p)
            else p)"
    and "vmFlag_d ops p (''-XX:MinRAMFraction='' @ v) =
           (if MinRAMPercentage_d p = []
            then (case fractionAsPercentage ops v of
                    Some s \<Rightarrow> p\<lparr>MinRAMPercentage_d := s\<rparr> | None \<Rightarrow> p)
            else p)"
proof -
  note n = plainValue_patterns[OF assms] plainValue_takeWhile[OF assms]
    plainValue_facts(1)[OF assms]
  show "vmFlag_d ops p (''-XX:MaxRAMFraction='' @ v) =
           (if JavaMaxHeapAsPercentage_d p = []
            then (case fractionAsPercentage ops v of
                    Some s \<Rightarrow> p\<lparr>JavaMaxHeapAsPercentage_d := s\<rparr> | None \<Rightarrow> p)
            else p)"
    by (rule vmFlag_d_branch(4)[OF TrimSpace_literal[OF assms, of "''-XX:MaxRAMFraction=''"]])
       (simp_all add: HasPrefix_def extractFlagValue_def n)
  show "vmFlag_d ops p (''-XX:InitialRAMFraction='' @ v) =
           (if JavaInitialHeapAsPercentage_d p = []
            then (case fractionAsPercentage ops v of
                    Some s \<Rightarrow> p\<lparr>JavaInitialHeapAsPercentage_d := s\<rparr> | None \<Rightarrow> p)
            else p)"
    by (rule vmFlag_d_branch(5)[OF TrimSpace_literal[OF assms, of "''-XX:InitialRAMFraction=''"]])
       (simp_all add: HasPrefix_def extractFlagValue_def n)
  show "vmFlag_d ops p (''-XX:MinRAMFraction='' @ v) =
           (if MinRAMPercentage_d p = []
            then (case fractionAsPercentage ops v of
                    Some s \<Rightarrow> p\<lparr>MinRAMPercentage_d := s\<rparr> | None \<Rightarrow> p)
            else p)"
    by (rule vmFlag_d_branch(6)[OF TrimSpace_literal[OF assms, of "''-XX:MinRAMFraction=''"]])
       (simp_all add: HasPrefix_def extractFlagValue_def n)
qed

lemma vmFlag_d_keeps:
  "\<not> Contains (TrimSpace f) ''MaxRAMPercentage='' \<Longrightarrow> JavaMaxHeapAsPercentage_d p \<noteq> [] \<Longrightarrow>
     JavaMaxHeapAsPercentage_d (vmFlag_d ops p f) = JavaMaxHeapAsPercentage_d p"
  "\<not> Contains (TrimSpace f) ''InitialRAMPercentage='' \<Longrightarrow> JavaInitialHeapAsPercentage_d p \<noteq> [] \<Longrightarrow>
     JavaInitialHeapAsPercentage_d (vmFlag_d ops p f) = JavaInitialHeapAsPercentage_d p"
  "\<not> Contains (TrimSpace f) ''MinRAMPercentage='' \<Longrightarrow> MinRAMPercentage_d p \<noteq> [] \<Longrightarrow>
     MinRAMPercentage_d (vmFlag_d ops p f) = MinRAMPercentage_d p"
  by (simp_all add: vmFlag_d_def Let_def split: option.split)

lemma foldl_vmFlag_d_keeps:
  "\<forall>f\<in>set fs. \<not> Contains (TrimSpace f) ''MaxRAMPercentage='' \<Longrightarrow>
     JavaMaxHeapAsPercentage_d p \<noteq> [] \<Longrightarrow>
     JavaMaxHeapAsPercentage_d (foldl (vmFlag_d ops) p fs) = JavaMaxHeapAsPercentage_d p"
  "\<forall>f\<in>set fs. \<not> Contains (TrimSpace f) ''InitialRAMPercentage='' \<Longrightarrow>
     JavaInitialHeapAsPercentage_d p \<noteq> [] \<Longrightarrow>
     JavaInitialHeapAsPercentage_d (foldl (vmFlag_d ops) p fs) = JavaInitialHeapAsPercentage_d p"
  "\<forall>f\<in>set fs. \<not> Contains (TrimSpace f) ''MinRAMPercentage='' \<Longrightarrow>
     MinRAMPercentage_d p \<noteq> [] \<Longrightarrow>
     MinRAMPercentage_d (foldl (vmFlag_d ops) p fs) = MinRAMPercentage_d p"
  by (induction fs arbitrary: p) (simp_all add: vmFlag_d_keeps)

lemma fractionAsPercentage_cases:
  "v \<noteq> [] \<Longrightarrow>
   fractionAsPercentage ops v =
     (if \<exists>f. parseFloat64 ops v = Some f \<and> greaterThanZero ops f
      then Some (percentOfFraction ops (the (parseFloat64 ops v))) else None)"
  by (auto simp: fractionAsPercentage_def split: option.splits)

lemma last_percentage_wins:
  assumes "plainValue v"
  shows "\<forall>f\<in>set post. \<not> Contains (TrimSpace f) ''MaxRAMPercentage='' \<Longrightarrow>
     JavaMaxHeapAsPercentage_d
       (foldl (vmFlag_d ops) p (pre @ [''-XX:MaxRAMPercentage='' @ v] @ post)) = v"
    and "\<forall>f\<in>set post. \<not> Contains (TrimSpace f) ''InitialRAMPercentage='' \<Longrightarrow>
     JavaInitialHeapAsPercentage_d
       (foldl (vmFlag_d ops) p (pre @ [''-XX:InitialRAMPercentage='' @ v] @ post)) = v"
    and "\<forall>f\<in>set post. \<not> Contains (TrimSpace f) ''MinRAMPercentage='' \<Longrightarrow>
     MinRAMPercentage_d
       (foldl (vmFlag_d ops) p (pre @ [''-XX:MinRAMPercentage='' @ v] @ post)) = v"
  using plainValue_facts(1)[OF assms]
  by (simp_all add: percentage_flag_step[OF assms] foldl_vmFlag_d_keeps del: append.simps(2))

lemma ParseFloat_25: "ParseFloat ''25'' = Some 25"
  by (rule ParseFloat_exact, code_simp) simp_all

lemma parsePercentage_last:
  "findAllLit (''-XX:'' @ n @ ''='') 0 xx = ms \<Longrightarrow> ms \<noteq> [] \<Longrightarrow>
   ParseFloat (fst (last ms)) = Some v \<Longrightarrow> parsePercentage xx n = v"
  by (simp add: parsePercentage_def)

lemma maxHeap_decimal: "JavaMaxHeapSize (parseJVMParamsFromString ''-Xmx2.5g'') = 2"
proof -
  have m: "maxHeapMatches ''-Xmx2.5g'' = [(''2'', 0)]" by code_simp
  have x: "xxOptionsString ''-Xmx2.5g'' = []" by code_simp
  have p: "parsePercentage [] ''MaxRAMPercentage'' = 0" by code_simp
  show ?thesis
    by (simp add: parseJVMParamsFromString_def Let_def m x p heapSizeOf_unfold parseMemorySize_2)
qed

lemma maxHeap_unit_t: "JavaMaxHeapSize (parseJVMParamsFromString ''-Xmx1t'') = 1"
proof -
  have m: "maxHeapMatches ''-Xmx1t'' = [(''1'', 0)]" by code_simp
  have x: "xxOptionsString ''-Xmx1t'' = []" by code_simp
  have p: "parsePercentage [] ''MaxRAMPercentage'' = 0" by code_simp
  show ?thesis
    by (simp add: parseJVMParamsFromString_def Let_def m x p heapSizeOf_unfold parseMemorySize_1)
qed

lemma pct_only_xx:
  "xxOptionsString ''-XX:MaxRAMPercentage=50 -XX:InitialRAMPercentage=25'' =
     ''-XX:MaxRAMPercentage=50,-XX:InitialRAMPercentage=25''"
  by code_simp

lemma pct_only_max:
  "parsePercentage ''-XX:MaxRAMPercentage=50,-XX:InitialRAMPercentage=25'' ''MaxRAMPercentage'' = 50"
  by (rule parsePercentage_last[where ms = "[(''50'', 0)]"], code_simp) (simp_all add: ParseFloat_50)

lemma pct_only_initial:
  "parsePercentage ''-XX:MaxRAMPercentage=50,-XX:InitialRAMPercentage=25'' ''InitialRAMPercentage'' = 25"
  by (rule parsePercentage_last[where ms = "[(''25'', 24)]"], code_simp) (simp_all add: ParseFloat_25)

lemma pct_only_no_sizes:
  "maxHeapMatches ''-XX:MaxRAMPercentage=50 -XX:InitialRAMPercentage=25'' = []"
  "initialHeapMatches ''-XX:MaxRAMPercentage=50 -XX:InitialRAMPercentage=25'' = []"
  by code_simp+

lemma two_spellings_matches:
  "maxHeapMatches ''-Xmx1g -XX:MaxHeapSize=4g'' = [(''1g'', 0), (''4g'', 6)]"
  "maxHeapMatches ''-XX:MaxHeapSize=4g -Xmx1g'' = [(''1g'', 18), (''4g'', 0)]"
  "initialHeapMatches ''-Xmx1g -XX:MaxHeapSize=4g'' = []"
  "initialHeapMatches ''-XX:MaxHeapSize=4g -Xmx1g'' = []"
  by code_simp+

lemma two_spellings_pct:
  "parsePercentage (xxOptionsString ''-Xmx1g -XX:MaxHeapSize=4g'') ''MaxRAMPercentage'' = 0"
  "parsePercentage (xxOptionsString ''-XX:MaxHeapSize=4g -Xmx1g'') ''MaxRAMPercentage'' = 0"
  by code_simp+

lemma zero_size_max:
  "maxHeapMatches ''-Xmx0 -XX:MaxRAMPercentage=50'' = [(''0'', 0)]"
  "findAllLit ''-XX:MaxRAMPercentage='' 0 ''-Xmx0 -XX:MaxRAMPercentage=50'' = [(''50'', 6)]"
  "xxOptionsString ''-Xmx0 -XX:MaxRAMPercentage=50'' = ''-XX:MaxRAMPercentage=50''"
  "findAllLit ''-XX:MaxRAMPercentage='' 0 ''-XX:MaxRAMPercentage=50'' = [(''50'', 0)]"
  by code_simp+

lemma zero_size_initial:
  "initialHeapMatches ''-Xms0 -XX:InitialRAMPercentage=50'' = [(''0'', 0)]"
  "findAllLit ''-XX:InitialRAMPercentage='' 0 ''-Xms0 -XX:InitialRAMPercentage=50'' = [(''50'', 6)]"
  "xxOptionsString ''-Xms0 -XX:InitialRAMPercentage=50'' = ''-XX:InitialRAMPercentage=50''"
  "findAllLit ''-XX:InitialRAMPercentage='' 0 ''-XX:InitialRAMPercentage=50'' = [(''50'', 0)]"
  by code_simp+

lemma heapSizeOf_two_spellings:
  "heapSizeOf [(''1g'', 0), (''4g'', 6)] = 4 * 1024 ^ 3"
  "heapSizeOf [(''1g'', 18), (''4g'', 0)] = 1024 ^ 3"
  by (simp_all add: heapSizeOf_unfold parseMemorySize_1g parseMemorySize_4g)

lemma repeated_then_pct:
  "maxHeapMatches ''-Xmx1g -Xmx2g -XX:MaxRAMPercentage=50'' = [(''1g'', 0), (''2g'', 6)]"
  "findAllLit ''-XX:MaxRAMPercentage='' 0 ''-Xmx1g -Xmx2g -XX:MaxRAMPercentage=50'' = [(''50'', 14)]"
  "xxOptionsString ''-Xmx1g -Xmx2g -XX:MaxRAMPercentage=50'' = ''-XX:MaxRAMPercentage=50''"
  by code_simp+

lemma single_then_pct:
  "maxHeapMatches ''-Xmx1g -XX:MaxRAMPercentage=50'' = [(''1g'', 0)]"
  "findAllLit ''-XX:MaxRAMPercentage='' 0 ''-Xmx1g -XX:MaxRAMPercentage=50'' = [(''50'', 7)]"
  "xxOptionsString ''-Xmx1g -XX:MaxRAMPercentage=50'' = ''-XX:MaxRAMPercentage=50''"
  by code_simp+

lemma pct_50_max: "parsePercentage ''-XX:MaxRAMPercentage=50'' ''MaxRAMPercentage'' = 50"
  by (rule parsePercentage_last[where ms = "[(''50'', 0)]"], code_simp) (simp_all add: ParseFloat_50)

lemma pct_50_initial:
  "parsePercentage ''-XX:InitialRAMPercentage=50'' ''InitialRAMPercentage'' = 50"
  by (rule parsePercentage_last[where ms = "[(''50'', 0)]"], code_simp) (simp_all add: ParseFloat_50)

lemma heapSizeOf_samples:
  "heapSizeOf [(''0'', 0)] = 0"
  "heapSizeOf [(''1g'', 0)] = 1024 ^ 3"
  "heapSizeOf [(''1g'', 0), (''2g'', 6)] = 2 * 1024 ^ 3"
  by (simp_all add: heapSizeOf_unfold parseMemorySize_0 parseMemorySize_1g parseMemorySize_2g)

lemma nonzero_initial:
  "initialHeapMatches ''-Xms1g -XX:InitialRAMPercentage=50'' = [(''1g'', 0)]"
  "xxOptionsString ''-Xms1g -XX:InitialRAMPercentage=50'' = ''-XX:InitialRAMPercentage=50''"
  by code_simp+

lemma override_blob:
  "combinedArgs ''-Xmx8g -XX:+UseZGC''
     [''JAVA_TOOL_OPTIONS'' \<mapsto> ''-Xmx2g -Xms512m -XX:+UseG1GC -XX:MaxGCPauseMillis=200''] =
   ''-Xmx2g -Xms512m -XX:+UseG1GC -XX:MaxGCPauseMillis=200 -Xmx8g -XX:+UseZGC''"
  "combinedArgs []
     [''JAVA_TOOL_OPTIONS'' \<mapsto> ''-Xmx2g -Xms512m -XX:+UseG1GC -XX:MaxGCPauseMillis=200''] =
   ''-Xmx2g -Xms512m -XX:+UseG1GC -XX:MaxGCPauseMillis=200''"
  by code_simp+

lemma override_matches:
  "maxHeapMatches ''-Xmx2g -Xms512m -XX:+UseG1GC -XX:MaxGCPauseMillis=200 -Xmx8g -XX:+UseZGC'' =
     [(''2g'', 0), (''8g'', 53)]"
  "initialHeapMatches ''-Xmx2g -Xms512m -XX:+UseG1GC -XX:MaxGCPauseMillis=200 -Xmx8g -XX:+UseZGC'' =
     [(''512m'', 6)]"
  "maxHeapMatches ''-Xmx8g -XX:+UseZGC'' = [(''8g'', 0)]"
  "initialHeapMatches ''-Xmx8g -XX:+UseZGC'' = []"
  "initialHeapMatches ''-Xmx2g -Xms512m -XX:+UseG1GC -XX:MaxGCPauseMillis=200'' = [(''512m'', 6)]"
  by code_simp+

lemma override_pct:
  "parsePercentage
     (xxOptionsString ''-Xmx2g -Xms512m -XX:+UseG1GC -XX:MaxGCPauseMillis=200 -Xmx8g -XX:+UseZGC'')
     ''MaxRAMPercentage'' = 0"
  "parsePercentage
     (xxOptionsString ''-Xmx2g -Xms512m -XX:+UseG1GC -XX:MaxGCPauseMillis=200 -Xmx8g -XX:+UseZGC'')
     ''InitialRAMPercentage'' = 0"
  by code_simp+

lemma heapSizeOf_override:
  "heapSizeOf [(''2g'', 0), (''8g'', 53)] = 8 * 1024 ^ 3"
  "heapSizeOf [(''8g'', 0)] = 8 * 1024 ^ 3"
  "heapSizeOf [(''512m'', 6)] = 512 * 1024 ^ 2"
  by (simp_all add: heapSizeOf_unfold parseMemorySize_2g parseMemorySize_8g parseMemorySize_512m)

subsection \<open>The flag dump parser with fractions on sample flags\<close>

lemma decimal_ops_sel:
  "parseFloat64 decimal_ops = ParseFloat"
  "greaterThanZero decimal_ops x = (0 < x)"
  "percentOfFraction decimal_ops x = formatOneDecimal (100 / x)"
  by (simp_all add: decimal_ops_def)

lemma formatOneDecimal_samples:
  "formatOneDecimal (100 / 4) = ''25.0''"
  "formatOneDecimal (100 / 2) = ''50.0''"
  "formatOneDecimal (100 / 8) = ''12.5''"
  "formatOneDecimal 25 = ''25.0''"
  "formatOneDecimal 50 = ''50.0''"
  by code_simp+

lemma plainValue_samples:
  "plainValue ''4''" "plainValue ''2''" "plainValue ''0''" "plainValue ''75.0''" "plainValue ''abc''"
  by code_simp+

lemma ParseFloat_abc: "ParseFloat ''abc'' = None"
  by code_simp

lemma fraction_step_cases:
  assumes "plainValue v"
  shows "vmFlag_d ops p (''-XX:MaxRAMFraction='' @ v) =
       (case parseFloat64 ops v of
          Some f \<Rightarrow> if greaterThanZero ops f \<and> JavaMaxHeapAsPercentage_d p = []
                    then p\<lparr>JavaMaxHeapAsPercentage_d := percentOfFraction ops f\<rparr> else p
        | None \<Rightarrow> p)"
    and "vmFlag_d ops p (''-XX:InitialRAMFraction='' @ v) =
       (case parseFloat64 ops v of
          Some f \<Rightarrow> if greaterThanZero ops f \<and> JavaInitialHeapAsPercentage_d p = []
                    then p\<lparr>JavaInitialHeapAsPercentage_d := percentOfFraction ops f\<rparr> else p
        | None \<Rightarrow> p)"
    and "vmFlag_d ops p (''-XX:MinRAMFraction='' @ v) =
       (case parseFloat64 ops v of
          Some f \<Rightarrow> if greaterThanZero ops f \<and> MinRAMPercentage_d p = []
                    then p\<lparr>MinRAMPercentage_d := percentOfFraction ops f\<rparr> else p
        | None \<Rightarrow> p)"
  unfolding fraction_flag_step[OF assms] fractionAsPercentage_def
  using plainValue_facts(1)[OF assms]
  by (simp_all split: option.split)

lemma repeated_fraction_fields:
  "Fields ''-XX:MaxRAMFraction=4 -XX:MaxRAMFraction=2''
     = [''-XX:MaxRAMFraction=4'', ''-XX:MaxRAMFraction=2'']"
  by code_simp

lemma fraction_flag_literals:
  "''-XX:MaxRAMFraction=4'' = ''-XX:MaxRAMFraction='' @ ''4''"
  "''-XX:MaxRAMFraction=2'' = ''-XX:MaxRAMFraction='' @ ''2''"
  "''-XX:MaxRAMFraction=0'' = ''-XX:MaxRAMFraction='' @ ''0''"
  "''-XX:MaxRAMFraction=abc'' = ''-XX:MaxRAMFraction='' @ ''abc''"
  "''-XX:InitialRAMFraction=8'' = ''-XX:InitialRAMFraction='' @ ''8''"
  by simp_all

lemma fraction_4_step:
  "vmFlag_d decimal_ops JVMParams_d_zero ''-XX:MaxRAMFraction=4''
     = JVMParams_d_zero\<lparr>JavaMaxHeapAsPercentage_d := ''25.0''\<rparr>"
  unfolding fraction_flag_literals(1)
  by (simp add: fraction_step_cases(1)[OF plainValue_samples(1)] decimal_ops_sel ParseFloat_4
        formatOneDecimal_samples JVMParams_d_zero_def del: append.simps)

lemma fraction_2_step:
  "vmFlag_d decimal_ops (JVMParams_d_zero\<lparr>JavaMaxHeapAsPercentage_d := ''25.0''\<rparr>)
     ''-XX:MaxRAMFraction=2''
     = JVMParams_d_zero\<lparr>JavaMaxHeapAsPercentage_d := ''25.0''\<rparr>"
  unfolding fraction_flag_literals(2)
  by (simp add: fraction_step_cases(1)[OF plainValue_samples(2)] decimal_ops_sel ParseFloat_2
        del: append.simps)

lemma post_flag_ok:
  "\<not> Contains (TrimSpace ''-XX:MaxRAMFraction=2'') ''MaxRAMPercentage=''"
  by code_simp


subsection \<open>The command line pass on sample command lines\<close>





section \<open>The claims\<close>

text \<open>
  C10 (the code does not do what the claim says). The claim: a size flag whose value has
  a decimal point or an unknown unit is never captured and contributes no value. The
  pattern of the extractor is not anchored after the value: of \<^verbatim>\<open>-Xmx2.5g\<close> it captures
  the digits before the point and of \<^verbatim>\<open>-Xmx1t\<close> the digit before the unit, and the
  maximum heap becomes 2 bytes and 1 byte.
\<close>

theorem C10_unanchored_size_value:
  "maxHeapMatches ''-Xmx2.5g'' = [(''2'', 0)]
   \<and> JavaMaxHeapSize (parseJVMParamsFromString ''-Xmx2.5g'') = 2
   \<and> maxHeapMatches ''-Xmx1t'' = [(''1'', 0)]
   \<and> JavaMaxHeapSize (parseJVMParamsFromString ''-Xmx1t'') = 1"
proof -
  have "maxHeapMatches ''-Xmx2.5g'' = [(''2'', 0)]" by code_simp
  moreover have "maxHeapMatches ''-Xmx1t'' = [(''1'', 0)]" by code_simp
  ultimately show ?thesis by (simp add: maxHeap_decimal maxHeap_unit_t)
qed

text \<open>
  C8. In the result of \<^verbatim>\<open>parseJVMParamsFromString\<close>, a heap size of -1 implies that the
  percentage of the same kind is greater than 0; and a percentage greater than 0 with no
  size flag of that kind in the input implies the heap size -1. Both revisions of the
  function keep the invariant.
\<close>

theorem C8_sentinel_invariant:
  "(JavaMaxHeapSize (parseJVMParamsFromString input) = - 1
      \<longrightarrow> 0 < JavaMaxHeapAsPercentage (parseJVMParamsFromString input))
   \<and> (JavaInitialHeapSize (parseJVMParamsFromString input) = - 1
      \<longrightarrow> 0 < JavaInitialHeapAsPercentage (parseJVMParamsFromString input))
   \<and> (0 < JavaMaxHeapAsPercentage (parseJVMParamsFromString input) \<and> maxHeapMatches input = []
      \<longrightarrow> JavaMaxHeapSize (parseJVMParamsFromString input) = - 1)
   \<and> (0 < JavaInitialHeapAsPercentage (parseJVMParamsFromString input)
        \<and> initialHeapMatches input = []
      \<longrightarrow> JavaInitialHeapSize (parseJVMParamsFromString input) = - 1)
   \<and> (JavaMaxHeapSize (parseJVMParamsFromString_prec input) = - 1
      \<longrightarrow> 0 < JavaMaxHeapAsPercentage (parseJVMParamsFromString_prec input))
   \<and> (JavaInitialHeapSize (parseJVMParamsFromString_prec input) = - 1
      \<longrightarrow> 0 < JavaInitialHeapAsPercentage (parseJVMParamsFromString_prec input))
   \<and> (0 < JavaMaxHeapAsPercentage (parseJVMParamsFromString_prec input)
        \<and> maxHeapMatches input = []
      \<longrightarrow> JavaMaxHeapSize (parseJVMParamsFromString_prec input) = - 1)
   \<and> (0 < JavaInitialHeapAsPercentage (parseJVMParamsFromString_prec input)
        \<and> initialHeapMatches input = []
      \<longrightarrow> JavaInitialHeapSize (parseJVMParamsFromString_prec input) = - 1)"
proof -
  have a: "heapSizeOf ms \<noteq> - 1" for ms
    using heapSizeOf_nonneg[of ms] by linarith
  have b: "fst (maxHeapSizeAndPos ms) = heapSizeOf ms" for ms
    by (simp add: maxHeapSizeAndPos_def heapSizeOf_def split: sum.splits)
  have c: "heapSizeOf [] = 0" by (simp add: heapSizeOf_def)
  show ?thesis
    by (simp add: parseJVMParamsFromString_def parseJVMParamsFromString_prec_def Let_def a b c)
qed

theorem C8_sentinel_invariant_witness:
  "0 < JavaMaxHeapAsPercentage
         (parseJVMParamsFromString ''-XX:MaxRAMPercentage=50 -XX:InitialRAMPercentage=25'')
   \<and> maxHeapMatches ''-XX:MaxRAMPercentage=50 -XX:InitialRAMPercentage=25'' = []
   \<and> JavaMaxHeapSize
         (parseJVMParamsFromString ''-XX:MaxRAMPercentage=50 -XX:InitialRAMPercentage=25'') = - 1
   \<and> 0 < JavaInitialHeapAsPercentage
         (parseJVMParamsFromString ''-XX:MaxRAMPercentage=50 -XX:InitialRAMPercentage=25'')
   \<and> initialHeapMatches ''-XX:MaxRAMPercentage=50 -XX:InitialRAMPercentage=25'' = []
   \<and> JavaInitialHeapSize
         (parseJVMParamsFromString ''-XX:MaxRAMPercentage=50 -XX:InitialRAMPercentage=25'') = - 1"
proof -
  let ?w = "''-XX:MaxRAMPercentage=50 -XX:InitialRAMPercentage=25''"
  have m: "JavaMaxHeapAsPercentage (parseJVMParamsFromString ?w) = 50"
    by (simp add: parseJVMParamsFromString_def Let_def pct_only_xx pct_only_max)
  have i: "JavaInitialHeapAsPercentage (parseJVMParamsFromString ?w) = 25"
    by (simp add: parseJVMParamsFromString_def Let_def pct_only_xx pct_only_initial)
  show ?thesis
    using C8_sentinel_invariant[of ?w] by (simp add: m i pct_only_no_sizes)
qed

text \<open>
  C3. The occurrences of both spellings of a heap kind are pooled; the value the rightmost
  loop picks is an occurrence whose offset no other occurrence exceeds, whatever its
  spelling; unless a percentage takes the field over, the heap size is the size of that
  occurrence. \<^verbatim>\<open>-Xmx1g\<close> before \<^verbatim>\<open>-XX:MaxHeapSize=4g\<close> gives \<open>4 * 1024^3\<close> bytes, the
  two flags swapped give \<open>1024^3\<close>.
\<close>

theorem C3_rightmost_occurrence_wins:
  "set (maxHeapMatches input) =
     set (findAllSize ''-Xmx'' input) \<union> set (findAllSize ''-XX:MaxHeapSize='' input)
   \<and> set (initialHeapMatches input) =
     set (findAllSize ''-Xms'' input) \<union> set (findAllSize ''-XX:MinHeapSize='' input)
   \<and> (maxHeapMatches input \<noteq> [] \<longrightarrow>
        rightmost (maxHeapMatches input) \<in> set (maxHeapMatches input)
        \<and> (\<forall>m\<in>set (maxHeapMatches input). snd m \<le> snd (rightmost (maxHeapMatches input))))
   \<and> (initialHeapMatches input \<noteq> [] \<longrightarrow>
        rightmost (initialHeapMatches input) \<in> set (initialHeapMatches input)
        \<and> (\<forall>m\<in>set (initialHeapMatches input).
              snd m \<le> snd (rightmost (initialHeapMatches input))))
   \<and> (JavaMaxHeapAsPercentage (parseJVMParamsFromString input) = 0 \<longrightarrow>
        JavaMaxHeapSize (parseJVMParamsFromString input) =
          (if maxHeapMatches input = [] then 0
           else case parseMemorySize (fst (rightmost (maxHeapMatches input))) of
                  Inr sz \<Rightarrow> sz | Inl e \<Rightarrow> 0))
   \<and> (JavaInitialHeapAsPercentage (parseJVMParamsFromString input) = 0 \<longrightarrow>
        JavaInitialHeapSize (parseJVMParamsFromString input) =
          (if initialHeapMatches input = [] then 0
           else case parseMemorySize (fst (rightmost (initialHeapMatches input))) of
                  Inr sz \<Rightarrow> sz | Inl e \<Rightarrow> 0))
   \<and> JavaMaxHeapSize (parseJVMParamsFromString ''-Xmx1g -XX:MaxHeapSize=4g'') = 4 * 1024 ^ 3
   \<and> JavaMaxHeapSize (parseJVMParamsFromString ''-XX:MaxHeapSize=4g -Xmx1g'') = 1 * 1024 ^ 3"
proof -
  have pool: "set (maxHeapMatches input) =
     set (findAllSize ''-Xmx'' input) \<union> set (findAllSize ''-XX:MaxHeapSize='' input)"
    "set (initialHeapMatches input) =
     set (findAllSize ''-Xms'' input) \<union> set (findAllSize ''-XX:MinHeapSize='' input)"
    by (simp_all add: maxHeapMatches_def initialHeapMatches_def)
  have mx: "maxHeapMatches input \<noteq> [] \<Longrightarrow>
        rightmost (maxHeapMatches input) \<in> set (maxHeapMatches input)
        \<and> (\<forall>m\<in>set (maxHeapMatches input). snd m \<le> snd (rightmost (maxHeapMatches input)))"
    using rightmost_member[of "maxHeapMatches input"] rightmost_greatest[of _ "maxHeapMatches input"]
      maxHeapMatches_pos[of _ input] by blast
  have ini: "initialHeapMatches input \<noteq> [] \<Longrightarrow>
        rightmost (initialHeapMatches input) \<in> set (initialHeapMatches input)
        \<and> (\<forall>m\<in>set (initialHeapMatches input).
              snd m \<le> snd (rightmost (initialHeapMatches input)))"
    using rightmost_member[of "initialHeapMatches input"]
      rightmost_greatest[of _ "initialHeapMatches input"]
      initialHeapMatches_pos[of _ input] by blast
  have sz: "JavaMaxHeapAsPercentage (parseJVMParamsFromString input) = 0 \<longrightarrow>
        JavaMaxHeapSize (parseJVMParamsFromString input) =
          (if maxHeapMatches input = [] then 0
           else case parseMemorySize (fst (rightmost (maxHeapMatches input))) of
                  Inr sz \<Rightarrow> sz | Inl e \<Rightarrow> 0)"
    "JavaInitialHeapAsPercentage (parseJVMParamsFromString input) = 0 \<longrightarrow>
        JavaInitialHeapSize (parseJVMParamsFromString input) =
          (if initialHeapMatches input = [] then 0
           else case parseMemorySize (fst (rightmost (initialHeapMatches input))) of
                  Inr sz \<Rightarrow> sz | Inl e \<Rightarrow> 0)"
    by (simp_all add: parseJVMParamsFromString_def Let_def heapSizeOf_def)
  have ex: "JavaMaxHeapSize (parseJVMParamsFromString ''-Xmx1g -XX:MaxHeapSize=4g'') = 4 * 1024 ^ 3"
    "JavaMaxHeapSize (parseJVMParamsFromString ''-XX:MaxHeapSize=4g -Xmx1g'') = 1 * 1024 ^ 3"
    by (simp_all add: parseJVMParamsFromString_def Let_def two_spellings_matches
        two_spellings_pct heapSizeOf_two_spellings)
  from pool mx ini sz ex show ?thesis by blast
qed

theorem C3_rightmost_occurrence_wins_witness:
  "maxHeapMatches ''-Xmx1g -XX:MaxHeapSize=4g'' \<noteq> []
   \<and> rightmost (maxHeapMatches ''-Xmx1g -XX:MaxHeapSize=4g'') = (''4g'', 6)
   \<and> maxHeapMatches ''-Xmx1g -XX:MaxHeapSize=4g'' = [(''1g'', 0), (''4g'', 6)]
   \<and> JavaMaxHeapAsPercentage (parseJVMParamsFromString ''-Xmx1g -XX:MaxHeapSize=4g'') = 0
   \<and> JavaMaxHeapSize (parseJVMParamsFromString ''-Xmx1g -XX:MaxHeapSize=4g'') = 4294967296"
proof -
  let ?w = "''-Xmx1g -XX:MaxHeapSize=4g''"
  have r: "rightmost (maxHeapMatches ?w) = (''4g'', 6)"
    by (simp add: two_spellings_matches rightmost_def rightmostStep_def)
  have p: "JavaMaxHeapAsPercentage (parseJVMParamsFromString ?w) = 0"
    by (simp add: parseJVMParamsFromString_def Let_def two_spellings_pct)
  have n: "maxHeapMatches ?w \<noteq> []" by (simp add: two_spellings_matches)
  show ?thesis
    using C3_rightmost_occurrence_wins[of ?w] r p n
    by (simp add: parseMemorySize_4g two_spellings_matches)
qed

text \<open>
  C1 (corrected). The claim: with an absolute maximum heap flag and a
  \<^verbatim>\<open>-XX:MaxRAMPercentage\<close> flag both present, the maximum heap is the absolute size, and
  -1 only when more than one absolute occurrence exists and the last percentage
  occurrence lies after all of them. It fails for a size of zero: of
  \<^verbatim>\<open>-Xmx0 -XX:MaxRAMPercentage=50\<close>, with its single absolute occurrence, both revisions
  make the maximum heap -1.
\<close>

theorem C1_zero_size_counterexample:
  "maxHeapMatches ''-Xmx0 -XX:MaxRAMPercentage=50'' = [(''0'', 0)]
   \<and> findAllLit ''-XX:MaxRAMPercentage='' 0 ''-Xmx0 -XX:MaxRAMPercentage=50'' = [(''50'', 6)]
   \<and> JavaMaxHeapSize (parseJVMParamsFromString_prec ''-Xmx0 -XX:MaxRAMPercentage=50'') = - 1
   \<and> JavaMaxHeapSize (parseJVMParamsFromString ''-Xmx0 -XX:MaxRAMPercentage=50'') = - 1"
  by (simp add: parseJVMParamsFromString_prec_def parseJVMParamsFromString_def Let_def
      zero_size_max pct_50_max maxHeapSizeAndPos_size heapSizeOf_samples del: findAllLit.simps)

text \<open>
  C1 as amended, for the revision with the precedence rules. The maximum heap is -1
  exactly when the percentage read is greater than 0 and either the size of the
  rightmost absolute occurrence is 0 (no occurrence, a zero size, or a size beyond the
  range of \<^verbatim>\<open>float64\<close>), or more than one absolute occurrence exists and the last
  \<^verbatim>\<open>-XX:MaxRAMPercentage=\<close> occurrence of the input lies after all of them. In every
  other case it is the size of the rightmost absolute occurrence.
\<close>

theorem C1_max_heap_precedence:
  "(let ms = maxHeapMatches input;
        pcts = findAllLit ''-XX:MaxRAMPercentage='' 0 input;
        r = parseJVMParamsFromString_prec input
    in (JavaMaxHeapSize r = - 1 \<longleftrightarrow>
          0 < JavaMaxHeapAsPercentage r
          \<and> (heapSizeOf ms = 0 \<or> (1 < length ms \<and> (\<forall>m\<in>set ms. snd m < snd (last pcts)))))
       \<and> (JavaMaxHeapSize r \<noteq> - 1 \<longrightarrow> JavaMaxHeapSize r = heapSizeOf ms)
       \<and> (0 < JavaMaxHeapAsPercentage r \<longrightarrow> pcts \<noteq> []))"
proof -
  let ?ms = "maxHeapMatches input"
  let ?pcts = "findAllLit ''-XX:MaxRAMPercentage='' 0 input"
  have pos: "heapSizeOf ?ms \<noteq> 0 \<Longrightarrow>
      (snd (maxHeapSizeAndPos ?ms) < p \<longleftrightarrow> (\<forall>m\<in>set ?ms. snd m < p))" for p
    using maxHeapSizeAndPos_pos[of ?ms] rightmost_before[of ?ms p] maxHeapMatches_pos[of _ input]
    by auto
  show ?thesis
  proof (cases "heapSizeOf ?ms = 0")
    case True
    then show ?thesis
      by (simp add: parseJVMParamsFromString_prec_def Let_def maxHeapSizeAndPos_size)
  next
    case False
    then show ?thesis
      using pos[OF False, of "snd (last ?pcts)"] heapSizeOf_not_sentinel[of ?ms]
      by (simp add: parseJVMParamsFromString_prec_def Let_def maxHeapSizeAndPos_size)
  qed
qed

theorem C1_max_heap_precedence_witness:
  "0 < JavaMaxHeapAsPercentage
         (parseJVMParamsFromString_prec ''-Xmx1g -Xmx2g -XX:MaxRAMPercentage=50'')
   \<and> maxHeapMatches ''-Xmx1g -Xmx2g -XX:MaxRAMPercentage=50'' = [(''1g'', 0), (''2g'', 6)]
   \<and> findAllLit ''-XX:MaxRAMPercentage='' 0 ''-Xmx1g -Xmx2g -XX:MaxRAMPercentage=50'' =
       [(''50'', 14)]
   \<and> JavaMaxHeapSize (parseJVMParamsFromString_prec ''-Xmx1g -Xmx2g -XX:MaxRAMPercentage=50'') = - 1
   \<and> 0 < JavaMaxHeapAsPercentage (parseJVMParamsFromString_prec ''-Xmx1g -XX:MaxRAMPercentage=50'')
   \<and> length (maxHeapMatches ''-Xmx1g -XX:MaxRAMPercentage=50'') = 1
   \<and> JavaMaxHeapSize (parseJVMParamsFromString_prec ''-Xmx1g -XX:MaxRAMPercentage=50'') = 1024 ^ 3"
proof -
  let ?a = "''-Xmx1g -Xmx2g -XX:MaxRAMPercentage=50''"
  let ?b = "''-Xmx1g -XX:MaxRAMPercentage=50''"
  have pa: "JavaMaxHeapAsPercentage (parseJVMParamsFromString_prec ?a) = 50"
    by (simp add: parseJVMParamsFromString_prec_def Let_def repeated_then_pct pct_50_max
        del: findAllLit.simps)
  have pb: "JavaMaxHeapAsPercentage (parseJVMParamsFromString_prec ?b) = 50"
    by (simp add: parseJVMParamsFromString_prec_def Let_def single_then_pct pct_50_max
        del: findAllLit.simps)
  have a: "JavaMaxHeapSize (parseJVMParamsFromString_prec ?a) = - 1"
    using C1_max_heap_precedence[of ?a]
    by (simp add: Let_def pa repeated_then_pct heapSizeOf_samples del: findAllLit.simps)
  have b: "JavaMaxHeapSize (parseJVMParamsFromString_prec ?b) = 1024 ^ 3"
    using C1_max_heap_precedence[of ?b]
    by (simp add: Let_def pb single_then_pct heapSizeOf_samples del: findAllLit.simps)
  show ?thesis
    using a b by (simp add: pa pb repeated_then_pct single_then_pct del: findAllLit.simps)
qed

text \<open>
  C2 (corrected). The claim: with an absolute initial heap flag and a
  \<^verbatim>\<open>-XX:InitialRAMPercentage\<close> flag both present, the initial heap is the absolute size and
  never -1. It fails for a size of zero: of \<^verbatim>\<open>-Xms0 -XX:InitialRAMPercentage=50\<close> both
  revisions make the initial heap -1.
\<close>

theorem C2_zero_size_counterexample:
  "initialHeapMatches ''-Xms0 -XX:InitialRAMPercentage=50'' = [(''0'', 0)]
   \<and> findAllLit ''-XX:InitialRAMPercentage='' 0 ''-Xms0 -XX:InitialRAMPercentage=50'' = [(''50'', 6)]
   \<and> JavaInitialHeapSize (parseJVMParamsFromString_prec ''-Xms0 -XX:InitialRAMPercentage=50'') = - 1
   \<and> JavaInitialHeapSize (parseJVMParamsFromString ''-Xms0 -XX:InitialRAMPercentage=50'') = - 1"
  by (simp add: parseJVMParamsFromString_prec_def parseJVMParamsFromString_def Let_def
      zero_size_initial pct_50_initial heapSizeOf_samples del: findAllLit.simps)

text \<open>
  C2 as amended, for the revision with the precedence rules. Whenever the size of the
  rightmost absolute initial heap occurrence is not 0, the initial heap is that size,
  whatever percentage flags the input holds and wherever they stand; the initial heap is
  -1 exactly when the percentage read is greater than 0 and that size is 0.
\<close>

theorem C2_initial_heap_precedence:
  "(heapSizeOf (initialHeapMatches input) \<noteq> 0 \<longrightarrow>
      JavaInitialHeapSize (parseJVMParamsFromString_prec input) = heapSizeOf (initialHeapMatches input)
      \<and> JavaInitialHeapSize (parseJVMParamsFromString_prec input) \<noteq> - 1)
   \<and> (JavaInitialHeapSize (parseJVMParamsFromString_prec input) = - 1 \<longleftrightarrow>
        0 < JavaInitialHeapAsPercentage (parseJVMParamsFromString_prec input)
        \<and> heapSizeOf (initialHeapMatches input) = 0)"
  using heapSizeOf_not_sentinel[of "initialHeapMatches input"]
  by (simp add: parseJVMParamsFromString_prec_def Let_def)

theorem C2_initial_heap_precedence_witness:
  "heapSizeOf (initialHeapMatches ''-Xms1g -XX:InitialRAMPercentage=50'') \<noteq> 0
   \<and> JavaInitialHeapAsPercentage
        (parseJVMParamsFromString_prec ''-Xms1g -XX:InitialRAMPercentage=50'') = 50
   \<and> JavaInitialHeapSize
        (parseJVMParamsFromString_prec ''-Xms1g -XX:InitialRAMPercentage=50'') = 1024 ^ 3"
proof -
  let ?w = "''-Xms1g -XX:InitialRAMPercentage=50''"
  have p: "JavaInitialHeapAsPercentage (parseJVMParamsFromString_prec ?w) = 50"
    by (simp add: parseJVMParamsFromString_prec_def Let_def nonzero_initial pct_50_initial)
  show ?thesis
    using C2_initial_heap_precedence[of ?w] by (simp add: p nonzero_initial heapSizeOf_samples)
qed

text \<open>
  C4. \<^verbatim>\<open>parseJVMParams\<close> parses one text: the values that are not empty of
  \<^verbatim>\<open>JAVA_TOOL_OPTIONS\<close>, \<^verbatim>\<open>_JAVA_OPTIONS\<close>, \<^verbatim>\<open>JDK_JAVA_OPTIONS\<close> and
  \<^verbatim>\<open>IBM_JAVA_OPTIONS\<close>, in this order, and the command line last, joined by single spaces.
  When the command line holds a size flag of a heap kind, every occurrence of that kind
  from the environment lies before the winning occurrence, and the winning value is the
  one that wins in the command line alone; when it holds none, the occurrences are those
  of the environment. Command line \<^verbatim>\<open>-Xmx8g -XX:+UseZGC\<close> with \<^verbatim>\<open>JAVA_TOOL_OPTIONS\<close> set
  to \<^verbatim>\<open>-Xmx2g -Xms512m -XX:+UseG1GC -XX:MaxGCPauseMillis=200\<close> gives a maximum heap of
  \<open>8 * 1024^3\<close> and an initial heap of \<open>512 * 1024^2\<close> bytes.
\<close>

theorem C4_command_line_last:
  "parseJVMParams cmdline env =
     parseJVMParamsFromString
       (Join (filter (\<lambda>s. s \<noteq> [])
                [envValue env ''JAVA_TOOL_OPTIONS'', envValue env ''_JAVA_OPTIONS'',
                 envValue env ''JDK_JAVA_OPTIONS'', envValue env ''IBM_JAVA_OPTIONS'', cmdline])
             '' '')
   \<and> (maxHeapMatches cmdline \<noteq> [] \<longrightarrow>
        (\<forall>m\<in>set (maxHeapMatches (combinedArgs [] env)).
            snd m < snd (rightmost (maxHeapMatches (combinedArgs cmdline env))))
        \<and> fst (rightmost (maxHeapMatches (combinedArgs cmdline env))) =
            fst (rightmost (maxHeapMatches cmdline))
        \<and> heapSizeOf (maxHeapMatches (combinedArgs cmdline env)) =
            heapSizeOf (maxHeapMatches cmdline))
   \<and> (initialHeapMatches cmdline \<noteq> [] \<longrightarrow>
        (\<forall>m\<in>set (initialHeapMatches (combinedArgs [] env)).
            snd m < snd (rightmost (initialHeapMatches (combinedArgs cmdline env))))
        \<and> fst (rightmost (initialHeapMatches (combinedArgs cmdline env))) =
            fst (rightmost (initialHeapMatches cmdline))
        \<and> heapSizeOf (initialHeapMatches (combinedArgs cmdline env)) =
            heapSizeOf (initialHeapMatches cmdline))
   \<and> (maxHeapMatches cmdline = [] \<longrightarrow>
        maxHeapMatches (combinedArgs cmdline env) = maxHeapMatches (combinedArgs [] env))
   \<and> (initialHeapMatches cmdline = [] \<longrightarrow>
        initialHeapMatches (combinedArgs cmdline env) = initialHeapMatches (combinedArgs [] env))
   \<and> JavaMaxHeapSize
        (parseJVMParams ''-Xmx8g -XX:+UseZGC''
           [''JAVA_TOOL_OPTIONS'' \<mapsto> ''-Xmx2g -Xms512m -XX:+UseG1GC -XX:MaxGCPauseMillis=200''])
       = 8 * 1024 ^ 3
   \<and> JavaInitialHeapSize
        (parseJVMParams ''-Xmx8g -XX:+UseZGC''
           [''JAVA_TOOL_OPTIONS'' \<mapsto> ''-Xmx2g -Xms512m -XX:+UseG1GC -XX:MaxGCPauseMillis=200''])
       = 512 * 1024 ^ 2"
proof -
  have blob: "parseJVMParams cmdline env =
     parseJVMParamsFromString
       (Join (filter (\<lambda>s. s \<noteq> [])
                [envValue env ''JAVA_TOOL_OPTIONS'', envValue env ''_JAVA_OPTIONS'',
                 envValue env ''JDK_JAVA_OPTIONS'', envValue env ''IBM_JAVA_OPTIONS'', cmdline])
             '' '')"
    by (simp add: parseJVMParams_def combinedArgs_Join envVars_def)
  have mx: "(\<forall>m\<in>set (maxHeapMatches (combinedArgs [] env)).
            snd m < snd (rightmost (maxHeapMatches (combinedArgs cmdline env))))
        \<and> fst (rightmost (maxHeapMatches (combinedArgs cmdline env))) =
            fst (rightmost (maxHeapMatches cmdline))
        \<and> heapSizeOf (maxHeapMatches (combinedArgs cmdline env)) =
            heapSizeOf (maxHeapMatches cmdline)"
    if ne: "maxHeapMatches cmdline \<noteq> []"
  proof -
    have ne': "findAllSize ''-Xmx'' cmdline @ findAllSize ''-XX:MaxHeapSize='' cmdline \<noteq> []"
      using ne by (simp add: maxHeapMatches_def)
    note w = pooled_blob_winner[OF size_literals(1-6) ne', of env, folded maxHeapMatches_def]
    show ?thesis using w heapSizeOf_cong[OF w(1) w(2) ne] by blast
  qed
  have ini: "(\<forall>m\<in>set (initialHeapMatches (combinedArgs [] env)).
            snd m < snd (rightmost (initialHeapMatches (combinedArgs cmdline env))))
        \<and> fst (rightmost (initialHeapMatches (combinedArgs cmdline env))) =
            fst (rightmost (initialHeapMatches cmdline))
        \<and> heapSizeOf (initialHeapMatches (combinedArgs cmdline env)) =
            heapSizeOf (initialHeapMatches cmdline)"
    if ne: "initialHeapMatches cmdline \<noteq> []"
  proof -
    have ne': "findAllSize ''-Xms'' cmdline @ findAllSize ''-XX:MinHeapSize='' cmdline \<noteq> []"
      using ne by (simp add: initialHeapMatches_def)
    note w = pooled_blob_winner[OF size_literals(7-12) ne', of env, folded initialHeapMatches_def]
    show ?thesis using w heapSizeOf_cong[OF w(1) w(2) ne] by blast
  qed
  have mx0: "maxHeapMatches (combinedArgs cmdline env) = maxHeapMatches (combinedArgs [] env)"
    if "maxHeapMatches cmdline = []"
    using that blob_without_cmdline_matches[OF size_literals(1-3), of cmdline env]
      blob_without_cmdline_matches[OF size_literals(4-6), of cmdline env]
    by (simp add: maxHeapMatches_def)
  have ini0: "initialHeapMatches (combinedArgs cmdline env) = initialHeapMatches (combinedArgs [] env)"
    if "initialHeapMatches cmdline = []"
    using that blob_without_cmdline_matches[OF size_literals(7-9), of cmdline env]
      blob_without_cmdline_matches[OF size_literals(10-12), of cmdline env]
    by (simp add: initialHeapMatches_def)
  have ex: "JavaMaxHeapSize
        (parseJVMParams ''-Xmx8g -XX:+UseZGC''
           [''JAVA_TOOL_OPTIONS'' \<mapsto> ''-Xmx2g -Xms512m -XX:+UseG1GC -XX:MaxGCPauseMillis=200''])
       = 8 * 1024 ^ 3"
    "JavaInitialHeapSize
        (parseJVMParams ''-Xmx8g -XX:+UseZGC''
           [''JAVA_TOOL_OPTIONS'' \<mapsto> ''-Xmx2g -Xms512m -XX:+UseG1GC -XX:MaxGCPauseMillis=200''])
       = 512 * 1024 ^ 2"
    by (simp_all only: parseJVMParams_def override_blob)
       (simp_all add: parseJVMParamsFromString_def Let_def override_matches override_pct
          heapSizeOf_override)
  from blob mx ini mx0 ini0 ex show ?thesis by blast
qed

theorem C4_command_line_last_witness:
  "maxHeapMatches ''-Xmx8g -XX:+UseZGC'' = [(''8g'', 0)]
   \<and> heapSizeOf (maxHeapMatches (combinedArgs ''-Xmx8g -XX:+UseZGC''
        [''JAVA_TOOL_OPTIONS'' \<mapsto> ''-Xmx2g -Xms512m -XX:+UseG1GC -XX:MaxGCPauseMillis=200'']))
       = 8 * 1024 ^ 3
   \<and> initialHeapMatches ''-Xmx8g -XX:+UseZGC'' = []
   \<and> initialHeapMatches (combinedArgs ''-Xmx8g -XX:+UseZGC''
        [''JAVA_TOOL_OPTIONS'' \<mapsto> ''-Xmx2g -Xms512m -XX:+UseG1GC -XX:MaxGCPauseMillis=200''])
       = [(''512m'', 6)]"
proof -
  let ?c = "''-Xmx8g -XX:+UseZGC''"
  let ?e = "[''JAVA_TOOL_OPTIONS'' \<mapsto> ''-Xmx2g -Xms512m -XX:+UseG1GC -XX:MaxGCPauseMillis=200'']"
  have a: "maxHeapMatches ?c \<noteq> []" "initialHeapMatches ?c = []"
    by (simp_all add: override_matches)
  from C4_command_line_last[of ?c ?e] a
  have "heapSizeOf (maxHeapMatches (combinedArgs ?c ?e)) = heapSizeOf (maxHeapMatches ?c)"
    and "initialHeapMatches (combinedArgs ?c ?e) = initialHeapMatches (combinedArgs [] ?e)"
    by blast+
  then show ?thesis
    by (simp add: override_blob(2) override_matches heapSizeOf_override)
qed

text \<open>
  C5 (corrected). The claim: the classifier returns the collector of the last explicit
  enable flag; with none, it infers in the priority order G1, Parallel, CMS, Serial and
  returns the first category matched. The code applies the priority order inside one
  flag only, and takes the flags in their order: of \<^verbatim>\<open>-XX:ParallelGCThreads=4\<close> followed
  by \<^verbatim>\<open>-XX:G1HeapRegionSize=4m\<close> it returns \<^verbatim>\<open>ParallelGC\<close>, where the priority order over
  all flags gives \<^verbatim>\<open>G1GC\<close>.
\<close>

theorem C5_priority_counterexample:
  "explicitEnables [''-XX:ParallelGCThreads=4'', ''-XX:G1HeapRegionSize=4m''] = []
   \<and> spec_inferByPriority [''-XX:ParallelGCThreads=4'', ''-XX:G1HeapRegionSize=4m''] = ''G1GC''
   \<and> parseHotSpotGCType [''-XX:ParallelGCThreads=4'', ''-XX:G1HeapRegionSize=4m''] = ''ParallelGC''"
  by code_simp

text \<open>
  C5 as amended. If some flag holds the text of an enable flag of the table, the result
  is the collector of the last such hit in the order of the scan (flag by flag, and for
  one flag down the table). Otherwise the result is the category of the first flag that
  falls in any category, the categories being tried for one flag in the order G1,
  Parallel (unless the flag holds \<^verbatim>\<open>-UseParallelGC\<close>), ConcMarkSweep or CMS, Serial
  (unless the flag holds \<^verbatim>\<open>-UseSerialGC\<close>); it is \<^verbatim>\<open>Unknown\<close> when no flag falls in a
  category. The classifier of the first file of \<^verbatim>\<open>part_000\<close> is the same function.
\<close>

theorem C5_gc_classifier:
  "(explicitEnables flags \<noteq> [] \<longrightarrow> parseHotSpotGCType flags = last (explicitEnables flags))
   \<and> (explicitEnables flags = [] \<longrightarrow>
        parseHotSpotGCType flags =
          (case filter (\<lambda>f. categoryOf f \<noteq> None) flags of
             [] \<Rightarrow> ''Unknown'' | f # rest \<Rightarrow> the (categoryOf f)))
   \<and> parseGCType_d flags = parseHotSpotGCType flags
   \<and> parseHotSpotGCType [''-XX:+UseSerialGC'', ''-XX:+UseParallelGC'', ''-XX:+UseG1GC''] = ''G1GC''"
proof -
  have "parseHotSpotGCType [''-XX:+UseSerialGC'', ''-XX:+UseParallelGC'', ''-XX:+UseG1GC''] = ''G1GC''"
    by code_simp
  then show ?thesis
    using parseHotSpotGCType_scan[of flags] parseGCType_d_eq[of flags] by simp
qed

theorem C5_gc_classifier_witness:
  "explicitEnables [''-XX:+UseSerialGC'', ''-XX:+UseParallelGC'', ''-XX:+UseG1GC''] =
     [''SerialGC'', ''ParallelGC'', ''G1GC'']
   \<and> parseHotSpotGCType [''-XX:+UseSerialGC'', ''-XX:+UseParallelGC'', ''-XX:+UseG1GC''] = ''G1GC''
   \<and> explicitEnables [''-XX:MaxHeapSize=2g'', ''-XX:CMSInitiatingOccupancyFraction=70''] = []
   \<and> filter (\<lambda>f. categoryOf f \<noteq> None)
        [''-XX:MaxHeapSize=2g'', ''-XX:CMSInitiatingOccupancyFraction=70''] =
      [''-XX:CMSInitiatingOccupancyFraction=70'']
   \<and> parseHotSpotGCType [''-XX:MaxHeapSize=2g'', ''-XX:CMSInitiatingOccupancyFraction=70''] =
      ''ConcMarkSweepGC''"
proof -
  let ?a = "[''-XX:+UseSerialGC'', ''-XX:+UseParallelGC'', ''-XX:+UseG1GC'']"
  let ?b = "[''-XX:MaxHeapSize=2g'', ''-XX:CMSInitiatingOccupancyFraction=70'']"
  have ea: "explicitEnables ?a = [''SerialGC'', ''ParallelGC'', ''G1GC'']" by code_simp
  have eb: "explicitEnables ?b = []" by code_simp
  have fb: "filter (\<lambda>f. categoryOf f \<noteq> None) ?b = [''-XX:CMSInitiatingOccupancyFraction=70'']"
    by code_simp
  have cb: "categoryOf ''-XX:CMSInitiatingOccupancyFraction=70'' = Some ''ConcMarkSweepGC''"
    by code_simp
  have a: "parseHotSpotGCType ?a = ''G1GC''"
    using C5_gc_classifier[of ?a] by (simp add: ea)
  have b: "parseHotSpotGCType ?b = ''ConcMarkSweepGC''"
    using C5_gc_classifier[of ?b] unfolding eb fb by (simp add: cb)
  show ?thesis using a b ea eb fb by simp
qed

text \<open>
  C6 (corrected). The claim: the command line pass is consulted exactly when the live dump
  gave no maximum and no initial heap signal at all, neither absolute nor percentage, and
  then no field the live dump set is overwritten. The code tests the two absolute sizes
  only: a live dump of \<^verbatim>\<open>-XX:MaxRAMPercentage=75.0\<close> has a percentage signal, and still
  the maximum heap of the result comes from the command line \<^verbatim>\<open>java -Xmx2g\<close>.
\<close>

theorem C6_percentage_signal_counterexample:
  "JavaMaxHeapAsPercentage_v (parseVMFlagsOutput ''-XX:MaxRAMPercentage=75.0'' JVMVendorUnknown)
     = ''75.0''
   \<and> JavaMaxHeapSize_v (parseVMFlagsOutput ''-XX:MaxRAMPercentage=75.0'' JVMVendorUnknown) = []
   \<and> JavaMaxHeapSize_v
        (ParseJVMParams
           \<lparr>GetVMFlags = (\<lambda>pid. Inr ''-XX:MaxRAMPercentage=75.0''),
            GetSystemProperties = (\<lambda>pid. Inl AttachFailed),
            GetVersion = (\<lambda>pid. Inl AttachFailed)\<rparr>
           ''java -Xmx2g'' 1)
     = ''2'' @ [CHR 0xC3, CHR 0x97] @ ''1073741824''"
  by code_simp

text \<open>
  C6 as amended. With a flag dump at hand, the result is the live dump's configuration
  unless that has neither an absolute maximum nor an absolute initial heap size
  (percentages are not looked at). In that case the two sizes are those of the command
  line pass; a percentage the live dump left unset is the one of the command line pass,
  and a percentage the command line pass left unset is the one of the live dump; the GC
  type is the one of the command line pass only when the live dump's is \<^verbatim>\<open>Unknown\<close> and
  the command line pass has another.
\<close>

theorem C6_fallback_merge:
  "GetVMFlags jvm pid = Inr vmFlags \<Longrightarrow>
   (let v = detectJVMVendorWithSystemProperties jvm pid;
        vendor = (if v = JVMVendorUnknown then detectJVMVendor vmFlags else v);
        live = parseVMFlagsOutput vmFlags vendor;
        fb = parseFromCmdline cmdline;
        r = ParseJVMParams jvm cmdline pid
    in (JavaMaxHeapSize_v live \<noteq> [] \<or> JavaInitialHeapSize_v live \<noteq> [] \<longrightarrow> r = live)
       \<and> (JavaMaxHeapSize_v live = [] \<and> JavaInitialHeapSize_v live = [] \<longrightarrow>
            JavaMaxHeapSize_v r = JavaMaxHeapSize_v fb
            \<and> JavaInitialHeapSize_v r = JavaInitialHeapSize_v fb
            \<and> (JavaMaxHeapAsPercentage_v live = [] \<longrightarrow>
                 JavaMaxHeapAsPercentage_v r = JavaMaxHeapAsPercentage_v fb)
            \<and> (JavaMaxHeapAsPercentage_v fb = [] \<longrightarrow>
                 JavaMaxHeapAsPercentage_v r = JavaMaxHeapAsPercentage_v live)
            \<and> (JavaInitialHeapAsPercentage_v live = [] \<longrightarrow>
                 JavaInitialHeapAsPercentage_v r = JavaInitialHeapAsPercentage_v fb)
            \<and> (JavaInitialHeapAsPercentage_v fb = [] \<longrightarrow>
                 JavaInitialHeapAsPercentage_v r = JavaInitialHeapAsPercentage_v live)
            \<and> GCType_v r =
                (if GCType_v live = ''Unknown'' \<and> GCType_v fb \<noteq> ''Unknown'' then GCType_v fb
                 else GCType_v live)))"
  by (simp add: ParseJVMParams_def mergeFallback_def Let_def)

theorem C6_fallback_merge_witness:
  "JavaMaxHeapSize_v (parseVMFlagsOutput ''-XX:MaxRAMPercentage=75.0'' JVMVendorUnknown) = []
   \<and> JavaInitialHeapSize_v (parseVMFlagsOutput ''-XX:MaxRAMPercentage=75.0'' JVMVendorUnknown) = []
   \<and> JavaMaxHeapAsPercentage_v (parseFromCmdline ''java -Xmx2g'') = []
   \<and> JavaMaxHeapSize_v
        (ParseJVMParams
           \<lparr>GetVMFlags = (\<lambda>pid. Inr ''-XX:MaxRAMPercentage=75.0''),
            GetSystemProperties = (\<lambda>pid. Inl AttachFailed),
            GetVersion = (\<lambda>pid. Inl AttachFailed)\<rparr>
           ''java -Xmx2g'' 1)
       = JavaMaxHeapSize_v (parseFromCmdline ''java -Xmx2g'')
   \<and> JavaMaxHeapAsPercentage_v
        (ParseJVMParams
           \<lparr>GetVMFlags = (\<lambda>pid. Inr ''-XX:MaxRAMPercentage=75.0''),
            GetSystemProperties = (\<lambda>pid. Inl AttachFailed),
            GetVersion = (\<lambda>pid. Inl AttachFailed)\<rparr>
           ''java -Xmx2g'' 1)
       = ''75.0''
   \<and> ParseJVMParams
        \<lparr>GetVMFlags = (\<lambda>pid. Inr ''-XX:MaxHeapSize=1073741824 -XX:+UseG1GC''),
         GetSystemProperties = (\<lambda>pid. Inl AttachFailed),
         GetVersion = (\<lambda>pid. Inl AttachFailed)\<rparr>
        ''java -Xmx2g'' 1
       = \<lparr>JavaMaxHeapSize_v = ''1073741824'', JavaInitialHeapSize_v = [],
          JavaMaxHeapAsPercentage_v = [], JavaInitialHeapAsPercentage_v = [],
          GCType_v = ''G1GC''\<rparr>"
proof -
  let ?j = "\<lparr>GetVMFlags = (\<lambda>pid. Inr ''-XX:MaxRAMPercentage=75.0''),
            GetSystemProperties = (\<lambda>pid. Inl AttachFailed),
            GetVersion = (\<lambda>pid. Inl AttachFailed)\<rparr>"
  let ?k = "\<lparr>GetVMFlags = (\<lambda>pid. Inr ''-XX:MaxHeapSize=1073741824 -XX:+UseG1GC''),
            GetSystemProperties = (\<lambda>pid. Inl AttachFailed),
            GetVersion = (\<lambda>pid. Inl AttachFailed)\<rparr>"
  have vj: "detectJVMVendorWithSystemProperties ?j 1 = JVMVendorUnknown"
    "detectJVMVendor ''-XX:MaxRAMPercentage=75.0'' = JVMVendorUnknown"
    by code_simp+
  have vk: "detectJVMVendorWithSystemProperties ?k 1 = JVMVendorUnknown"
    "detectJVMVendor ''-XX:MaxHeapSize=1073741824 -XX:+UseG1GC'' = JVMVendorHotSpot"
    by code_simp+
  have lj: "parseVMFlagsOutput ''-XX:MaxRAMPercentage=75.0'' JVMVendorUnknown =
      \<lparr>JavaMaxHeapSize_v = [], JavaInitialHeapSize_v = [], JavaMaxHeapAsPercentage_v = ''75.0'',
       JavaInitialHeapAsPercentage_v = [], GCType_v = ''Unknown''\<rparr>"
    by code_simp
  have lk: "parseVMFlagsOutput ''-XX:MaxHeapSize=1073741824 -XX:+UseG1GC'' JVMVendorHotSpot =
      \<lparr>JavaMaxHeapSize_v = ''1073741824'', JavaInitialHeapSize_v = [],
       JavaMaxHeapAsPercentage_v = [], JavaInitialHeapAsPercentage_v = [], GCType_v = ''G1GC''\<rparr>"
    by code_simp
  have fb: "JavaMaxHeapAsPercentage_v (parseFromCmdline ''java -Xmx2g'') = []"
    by code_simp
  have gj: "GetVMFlags ?j 1 = Inr ''-XX:MaxRAMPercentage=75.0''" by simp
  have gk: "GetVMFlags ?k 1 = Inr ''-XX:MaxHeapSize=1073741824 -XX:+UseG1GC''" by simp
  have a: "JavaMaxHeapSize_v (ParseJVMParams ?j ''java -Xmx2g'' 1)
             = JavaMaxHeapSize_v (parseFromCmdline ''java -Xmx2g'')
           \<and> JavaMaxHeapAsPercentage_v (ParseJVMParams ?j ''java -Xmx2g'' 1) = ''75.0''"
    using C6_fallback_merge[OF gj, of "''java -Xmx2g''"]
    by (simp add: Let_def vj lj fb)
  have b: "ParseJVMParams ?k ''java -Xmx2g'' 1 =
      \<lparr>JavaMaxHeapSize_v = ''1073741824'', JavaInitialHeapSize_v = [],
       JavaMaxHeapAsPercentage_v = [], JavaInitialHeapAsPercentage_v = [], GCType_v = ''G1GC''\<rparr>"
    using C6_fallback_merge[OF gk, of "''java -Xmx2g''"]
    by (simp add: Let_def vk lk)
  show ?thesis using a b by (simp add: lj fb)
qed




text \<open>
  C9 (corrected). The claim: in the flag dump parser with fractions, a fraction flag with
  a value above 0 writes 100 over the value, with one decimal digit, in the percentage
  field, but only when no percentage flag has set the field. The code tests that the field
  is still empty, and an earlier fraction flag fills it too: of \<^verbatim>\<open>-XX:MaxRAMFraction=4\<close>
  followed by \<^verbatim>\<open>-XX:MaxRAMFraction=2\<close> the field is \<^verbatim>\<open>25.0\<close>, although the second flag has
  a value above 0, its quotient is \<^verbatim>\<open>50.0\<close>, and no percentage flag is there.
\<close>

theorem C9_repeated_fraction_counterexample:
  "Fields ''-XX:MaxRAMFraction=4 -XX:MaxRAMFraction=2''
     = [''-XX:MaxRAMFraction=4'', ''-XX:MaxRAMFraction=2'']
   \<and> JavaMaxHeapAsPercentage_d
       (parseVMFlagsOutput_d decimal_ops ''-XX:MaxRAMFraction=4 -XX:MaxRAMFraction=2'') = ''25.0''
   \<and> parseFloat64 decimal_ops ''2'' = Some 2
   \<and> greaterThanZero decimal_ops 2
   \<and> percentOfFraction decimal_ops 2 = ''50.0''"
  by (simp add: parseVMFlagsOutput_d_def repeated_fraction_fields fraction_4_step fraction_2_step
        decimal_ops_sel ParseFloat_2 formatOneDecimal_samples del: append.simps)

text \<open>
  C9 as amended. For a flag \<^verbatim>\<open>-XX:MaxRAMFraction=v\<close> (and the same for \<^verbatim>\<open>Initial\<close> and
  \<^verbatim>\<open>Min\<close>) whose value \<open>v\<close> is made of letters, digits, points and signs: the loop body
  writes the printed quotient of the parsed value in the percentage field exactly when
  \<open>v\<close> parses, the parsed value is above 0 and the field is still empty; in every other
  case (a text that does not parse, a value that is not above 0, a field already set by a
  percentage flag or by an earlier fraction flag) the parameters are unchanged. A
  percentage flag writes its value whatever the field holds. Hence, in a list of flags
  with a percentage flag of value \<open>v\<close> after which no flag holds the text of that
  percentage flag, the field ends as \<open>v\<close>, whatever flags come before and after it,
  fraction flags included. The three operations on \<^verbatim>\<open>float64\<close> are arbitrary.
\<close>

theorem C9_fraction_and_percentage:
  "plainValue v \<longrightarrow>
     vmFlag_d ops p (''-XX:MaxRAMFraction='' @ v) =
       (case parseFloat64 ops v of
          Some f \<Rightarrow> if greaterThanZero ops f \<and> JavaMaxHeapAsPercentage_d p = []
                    then p\<lparr>JavaMaxHeapAsPercentage_d := percentOfFraction ops f\<rparr> else p
        | None \<Rightarrow> p)
     \<and> vmFlag_d ops p (''-XX:InitialRAMFraction='' @ v) =
       (case parseFloat64 ops v of
          Some f \<Rightarrow> if greaterThanZero ops f \<and> JavaInitialHeapAsPercentage_d p = []
                    then p\<lparr>JavaInitialHeapAsPercentage_d := percentOfFraction ops f\<rparr> else p
        | None \<Rightarrow> p)
     \<and> vmFlag_d ops p (''-XX:MinRAMFraction='' @ v) =
       (case parseFloat64 ops v of
          Some f \<Rightarrow> if greaterThanZero ops f \<and> MinRAMPercentage_d p = []
                    then p\<lparr>MinRAMPercentage_d := percentOfFraction ops f\<rparr> else p
        | None \<Rightarrow> p)
     \<and> vmFlag_d ops p (''-XX:MaxRAMPercentage='' @ v) = p\<lparr>JavaMaxHeapAsPercentage_d := v\<rparr>
     \<and> vmFlag_d ops p (''-XX:InitialRAMPercentage='' @ v) = p\<lparr>JavaInitialHeapAsPercentage_d := v\<rparr>
     \<and> vmFlag_d ops p (''-XX:MinRAMPercentage='' @ v) = p\<lparr>MinRAMPercentage_d := v\<rparr>
     \<and> ((\<forall>f\<in>set post. \<not> Contains (TrimSpace f) ''MaxRAMPercentage='') \<longrightarrow>
          JavaMaxHeapAsPercentage_d
            (foldl (vmFlag_d ops) p (pre @ [''-XX:MaxRAMPercentage='' @ v] @ post)) = v)
     \<and> ((\<forall>f\<in>set post. \<not> Contains (TrimSpace f) ''InitialRAMPercentage='') \<longrightarrow>
          JavaInitialHeapAsPercentage_d
            (foldl (vmFlag_d ops) p (pre @ [''-XX:InitialRAMPercentage='' @ v] @ post)) = v)
     \<and> ((\<forall>f\<in>set post. \<not> Contains (TrimSpace f) ''MinRAMPercentage='') \<longrightarrow>
          MinRAMPercentage_d
            (foldl (vmFlag_d ops) p (pre @ [''-XX:MinRAMPercentage='' @ v] @ post)) = v)"
proof
  assume v: "plainValue v"
  show "vmFlag_d ops p (''-XX:MaxRAMFraction='' @ v) =
       (case parseFloat64 ops v of
          Some f \<Rightarrow> if greaterThanZero ops f \<and> JavaMaxHeapAsPercentage_d p = []
                    then p\<lparr>JavaMaxHeapAsPercentage_d := percentOfFraction ops f\<rparr> else p
        | None \<Rightarrow> p)
     \<and> vmFlag_d ops p (''-XX:InitialRAMFraction='' @ v) =
       (case parseFloat64 ops v of
          Some f \<Rightarrow> if greaterThanZero ops f \<and> JavaInitialHeapAsPercentage_d p = []
                    then p\<lparr>JavaInitialHeapAsPercentage_d := percentOfFraction ops f\<rparr> else p
        | None \<Rightarrow> p)
     \<and> vmFlag_d ops p (''-XX:MinRAMFraction='' @ v) =
       (case parseFloat64 ops v of
          Some f \<Rightarrow> if greaterThanZero ops f \<and> MinRAMPercentage_d p = []
                    then p\<lparr>MinRAMPercentage_d := percentOfFraction ops f\<rparr> else p
        | None \<Rightarrow> p)
     \<and> vmFlag_d ops p (''-XX:MaxRAMPercentage='' @ v) = p\<lparr>JavaMaxHeapAsPercentage_d := v\<rparr>
     \<and> vmFlag_d ops p (''-XX:InitialRAMPercentage='' @ v) = p\<lparr>JavaInitialHeapAsPercentage_d := v\<rparr>
     \<and> vmFlag_d ops p (''-XX:MinRAMPercentage='' @ v) = p\<lparr>MinRAMPercentage_d := v\<rparr>
     \<and> ((\<forall>f\<in>set post. \<not> Contains (TrimSpace f) ''MaxRAMPercentage='') \<longrightarrow>
          JavaMaxHeapAsPercentage_d
            (foldl (vmFlag_d ops) p (pre @ [''-XX:MaxRAMPercentage='' @ v] @ post)) = v)
     \<and> ((\<forall>f\<in>set post. \<not> Contains (TrimSpace f) ''InitialRAMPercentage='') \<longrightarrow>
          JavaInitialHeapAsPercentage_d
            (foldl (vmFlag_d ops) p (pre @ [''-XX:InitialRAMPercentage='' @ v] @ post)) = v)
     \<and> ((\<forall>f\<in>set post. \<not> Contains (TrimSpace f) ''MinRAMPercentage='') \<longrightarrow>
          MinRAMPercentage_d
            (foldl (vmFlag_d ops) p (pre @ [''-XX:MinRAMPercentage='' @ v] @ post)) = v)"
    using fraction_step_cases[OF v, of ops p] percentage_flag_step[OF v, of ops p]
      last_percentage_wins[OF v, of post ops p pre]
    by blast
qed

theorem C9_fraction_and_percentage_witness:
  "plainValue ''4'' \<and> plainValue ''0'' \<and> plainValue ''abc'' \<and> plainValue ''75.0''
   \<and> vmFlag_d decimal_ops JVMParams_d_zero ''-XX:MaxRAMFraction=4''
       = JVMParams_d_zero\<lparr>JavaMaxHeapAsPercentage_d := ''25.0''\<rparr>
   \<and> vmFlag_d decimal_ops JVMParams_d_zero ''-XX:MaxRAMFraction=0'' = JVMParams_d_zero
   \<and> vmFlag_d decimal_ops JVMParams_d_zero ''-XX:MaxRAMFraction=abc'' = JVMParams_d_zero
   \<and> JavaMaxHeapAsPercentage_d
       (foldl (vmFlag_d decimal_ops) JVMParams_d_zero
          [''-XX:MaxRAMFraction=4'', ''-XX:MaxRAMPercentage=75.0'', ''-XX:MaxRAMFraction=2''])
       = ''75.0''"
proof -
  have a: "vmFlag_d decimal_ops JVMParams_d_zero ''-XX:MaxRAMFraction=4''
       = JVMParams_d_zero\<lparr>JavaMaxHeapAsPercentage_d := ''25.0''\<rparr>"
    using C9_fraction_and_percentage[of "''4''" decimal_ops JVMParams_d_zero]
    by (simp add: plainValue_samples decimal_ops_sel ParseFloat_4 formatOneDecimal_samples
          JVMParams_d_zero_def)
  have b: "vmFlag_d decimal_ops JVMParams_d_zero ''-XX:MaxRAMFraction=0'' = JVMParams_d_zero"
    using C9_fraction_and_percentage[of "''0''" decimal_ops JVMParams_d_zero]
    by (simp add: plainValue_samples decimal_ops_sel ParseFloat_0)
  have c: "vmFlag_d decimal_ops JVMParams_d_zero ''-XX:MaxRAMFraction=abc'' = JVMParams_d_zero"
    using C9_fraction_and_percentage[of "''abc''" decimal_ops JVMParams_d_zero]
    by (simp add: plainValue_samples decimal_ops_sel ParseFloat_abc)
  have d: "JavaMaxHeapAsPercentage_d
       (foldl (vmFlag_d decimal_ops) JVMParams_d_zero
          ([''-XX:MaxRAMFraction=4''] @ [''-XX:MaxRAMPercentage='' @ ''75.0'']
             @ [''-XX:MaxRAMFraction=2'']))
       = ''75.0''"
    using C9_fraction_and_percentage[of "''75.0''" decimal_ops JVMParams_d_zero
        "[''-XX:MaxRAMFraction=2'']" "[''-XX:MaxRAMFraction=4'']"]
      plainValue_samples(4) post_flag_ok
    by (simp del: append.simps foldl_append foldl.simps)
  have e: "[''-XX:MaxRAMFraction=4''] @ [''-XX:MaxRAMPercentage='' @ ''75.0'']
             @ [''-XX:MaxRAMFraction=2'']
           = [''-XX:MaxRAMFraction=4'', ''-XX:MaxRAMPercentage=75.0'', ''-XX:MaxRAMFraction=2'']"
    by simp
  show ?thesis using a b c d unfolding e by (simp only: plainValue_samples simp_thms)
qed

end
